theory Spec2Isabelle
  imports Complex_Main
begin

section \<open>Values, tables and constants\<close>

text \<open>
  The engine of \<^verbatim>\<open>scoring_rules.py\<close> works on pandas tables. A table is modelled as the
  list of its rows, in row order. The only operations the source performs on float columns
  are the comparisons \<^verbatim>\<open><\<close> and \<^verbatim>\<open>>\<close>, so a float is modelled by its value:
  a real number, an infinity, or NaN (every comparison with NaN is false).
\<close>

datatype fval = NaN | NegInf | Fin real | PosInf

fun flt :: "fval \<Rightarrow> fval \<Rightarrow> bool" where
  "flt NaN _ = False"
| "flt _ NaN = False"
| "flt (Fin a) (Fin b) = (a < b)"
| "flt PosInf _ = False"
| "flt _ NegInf = False"
| "flt NegInf _ = True"
| "flt _ PosInf = True"

definition fgt :: "fval \<Rightarrow> fval \<Rightarrow> bool" where
  "fgt a b = flt b a"

text \<open>
  A row of \<^verbatim>\<open>noteStats\<close>: the note id (\<^verbatim>\<open>c.noteIdKey\<close>), the intercept
  (\<^verbatim>\<open>c.noteInterceptKey\<close>) and the remaining float columns, read by column name.
\<close>

record noteStatsRow =
  noteId :: int
  noteIntercept :: fval
  column :: "string \<Rightarrow> fval"

text \<open>
  The module \<^verbatim>\<open>constants\<close> (imported as \<^verbatim>\<open>c\<close>) is not part of the sources; the
  values the engine reads from it are taken as a parameter. Column keys that name a typed
  field of the model (\<^verbatim>\<open>noteIdKey\<close>, \<^verbatim>\<open>ratingStatusKey\<close>, \<^verbatim>\<open>activeRulesKey\<close>,
  the three boolean keys) need no value.
\<close>

record constants =
  currentlyRatedHelpful :: string
  currentlyRatedNotHelpful :: string
  needsMoreRatings :: string
  notHelpfulTagsTSVOrder :: "string list"
  notHelpfulHardToUnderstandKey :: string
  notHelpfulNoteNotNeededKey :: string
  adjustedSuffix :: string
  ratioSuffix :: string
  activeFilterTagsKey :: string

text \<open>
  A table of supplemental columns: the names of its columns other than the note id, and
  its rows, each a note id with the cells of that row. A cell that is absent from the map
  is a missing value.
\<close>

datatype cell = Str string | Flt fval

record frame =
  columns :: "string list"
  rows :: "(int \<times> (string \<rightharpoonup> cell)) list"

type_synonym labels = "(int \<times> string) list"

datatype assertion =
    DependenciesUnmet
  | RepeatRuleID
  | SupplementalIdsMismatch
  | ColumnCollision
  | LabelsIncomplete
  | RulesIncomplete
  | ColumnsOutsideInput
  | RowCountMismatch

datatype error = AssertionError assertion | IndexingError

section \<open>pandas operations used by the engine\<close>

text \<open>\<^verbatim>\<open>sep.join(xs)\<close>\<close>

fun join :: "string \<Rightarrow> string list \<Rightarrow> string" where
  "join sep [] = []"
| "join sep [x] = x"
| "join sep (x # y # ys) = x @ sep @ join sep (y # ys)"

text \<open>\<^verbatim>\<open>Series.drop_duplicates()\<close>: the first occurrence of every value, in order.\<close>

fun drop_duplicates :: "'a list \<Rightarrow> 'a list" where
  "drop_duplicates [] = []"
| "drop_duplicates (x # xs) = x # drop_duplicates (filter (\<lambda>y. y \<noteq> x) xs)"

text \<open>\<^verbatim>\<open>df.groupby(key).tail(1)\<close>: the last row of every key, in the original row order.\<close>

fun groupby_tail1 :: "(int \<times> 'a) list \<Rightarrow> (int \<times> 'a) list" where
  "groupby_tail1 [] = []"
| "groupby_tail1 (x # xs) =
     (if fst x \<in> fst ` set xs then groupby_tail1 xs else x # groupby_tail1 xs)"

text \<open>
  \<^verbatim>\<open>df.groupby(key).aggregate(list).reset_index()\<close>: one row per key, keys ascending,
  with the list of that key's values in row order.
\<close>

definition groupby_aggregate_list :: "(int \<times> 'a) list \<Rightarrow> (int \<times> 'a list) list" where
  "groupby_aggregate_list xs =
     map (\<lambda>k. (k, map snd (filter (\<lambda>p. fst p = k) xs))) (sort (remdups (map fst xs)))"

text \<open>
  \<^verbatim>\<open>left.merge(right, on=key, how="inner")\<close>: for every left row, in order, one row per
  right row with the same key.
\<close>

definition merge_inner :: "('a \<Rightarrow> int) \<Rightarrow> ('b \<Rightarrow> int) \<Rightarrow> 'a list \<Rightarrow> 'b list \<Rightarrow> ('a \<times> 'b) list" where
  "merge_inner kl kr L R =
     concat (map (\<lambda>l. map (\<lambda>r. (l, r)) (filter (\<lambda>r. kr r = kl l) R)) L)"

text \<open>
  \<^verbatim>\<open>left.merge(right, on=key, how="left")\<close>: as the inner merge, but a left row without
  a partner is kept, with missing values on the right.
\<close>

definition merge_left :: "('a \<Rightarrow> int) \<Rightarrow> ('b \<Rightarrow> int) \<Rightarrow> 'a list \<Rightarrow> 'b list \<Rightarrow> ('a \<times> 'b option) list" where
  "merge_left kl kr L R =
     concat (map (\<lambda>l. case filter (\<lambda>r. kr r = kl l) R of
                          [] \<Rightarrow> [(l, None)]
                        | ms \<Rightarrow> map (\<lambda>r. (l, Some r)) ms) L)"

text \<open>
  \<^verbatim>\<open>left.merge(right, on=c.noteIdKey, how="outer")\<close> on two tables of supplemental
  columns: the union of the keys, ascending; per key the pairs of left and right rows, or the
  rows of the one side that has the key.
\<close>

definition merge_outer :: "frame \<Rightarrow> frame \<Rightarrow> frame" where
  "merge_outer L R =
     \<lparr>columns = columns L @ columns R,
      rows = concat (map (\<lambda>k.
                let ls = filter (\<lambda>p. fst p = k) (rows L);
                    rs = filter (\<lambda>p. fst p = k) (rows R)
                in if rs = [] then ls
                   else if ls = [] then rs
                   else concat (map (\<lambda>l. map (\<lambda>r. (k, snd l ++ snd r)) rs) ls))
              (sort (remdups (map fst (rows L) @ map fst (rows R)))))\<rparr>"

section \<open>Rule identity and the scoring rule contract\<close>

datatype RuleID = INITIAL_NMR | GENERAL_CRH | GENERAL_CRNH | TAG_OUTLIER

fun ruleName :: "RuleID \<Rightarrow> string" where
  "ruleName INITIAL_NMR = ''InitialNMR''"
| "ruleName GENERAL_CRH = ''GeneralCRH''"
| "ruleName GENERAL_CRNH = ''GeneralCRNH''"
| "ruleName TAG_OUTLIER = ''TagFilter''"

fun ruleVersion :: "RuleID \<Rightarrow> string" where
  "ruleVersion INITIAL_NMR = ''1.0''"
| "ruleVersion GENERAL_CRH = ''1.0''"
| "ruleVersion GENERAL_CRNH = ''1.0''"
| "ruleVersion TAG_OUTLIER = ''1.0''"

text \<open>
  \<^verbatim>\<open>ScoringRule\<close>: the three attributes set by \<^verbatim>\<open>__init__\<close> and the abstract method
  \<^verbatim>\<open>score_notes(noteStats, currentLabels)\<close>, which returns the active note ids and an
  optional table of new columns, or raises.
\<close>

record ScoringRule =
  ruleID :: RuleID
  status :: string
  dependencies :: "RuleID set"
  score_notes :: "noteStatsRow list \<Rightarrow> labels \<Rightarrow> error + (int list \<times> frame option)"

definition get_rule_id :: "ScoringRule \<Rightarrow> RuleID" where
  "get_rule_id rule = ruleID rule"

definition get_name :: "ScoringRule \<Rightarrow> string" where
  "get_name rule = ruleName (ruleID rule) @ '' (v'' @ ruleVersion (ruleID rule) @ '')''"

definition get_status :: "ScoringRule \<Rightarrow> string" where
  "get_status rule = status rule"

definition check_dependencies :: "ScoringRule \<Rightarrow> RuleID set \<Rightarrow> error + unit" where
  "check_dependencies rule priorRules =
     (if dependencies rule - priorRules = {} then Inr ()
      else Inl (AssertionError DependenciesUnmet))"

subsection \<open>DefaultRule\<close>

definition DefaultRule_score_notes ::
  "noteStatsRow list \<Rightarrow> labels \<Rightarrow> error + (int list \<times> frame option)" where
  "DefaultRule_score_notes noteStats currentLabels = Inr (map noteId noteStats, None)"

definition DefaultRule :: "RuleID \<Rightarrow> string \<Rightarrow> RuleID set \<Rightarrow> ScoringRule" where
  "DefaultRule rid st deps =
     \<lparr>ruleID = rid, status = st, dependencies = deps, score_notes = DefaultRule_score_notes\<rparr>"

subsection \<open>RuleFromFunction\<close>

text \<open>
  The wrapped function returns one boolean per row of \<^verbatim>\<open>noteStats\<close>;
  \<^verbatim>\<open>noteStats.loc[mask]\<close> raises when the mask does not fit the table.
\<close>

definition RuleFromFunction_score_notes ::
  "(noteStatsRow list \<Rightarrow> bool list) \<Rightarrow> noteStatsRow list \<Rightarrow> labels
     \<Rightarrow> error + (int list \<times> frame option)" where
  "RuleFromFunction_score_notes function noteStats currentLabels =
     (let mask = function noteStats
      in if length mask \<noteq> length noteStats then Inl IndexingError
         else Inr (map (noteId \<circ> fst) (filter snd (zip noteStats mask)), None))"

definition RuleFromFunction ::
  "RuleID \<Rightarrow> string \<Rightarrow> RuleID set \<Rightarrow> (noteStatsRow list \<Rightarrow> bool list) \<Rightarrow> ScoringRule" where
  "RuleFromFunction rid st deps function =
     \<lparr>ruleID = rid, status = st, dependencies = deps,
      score_notes = RuleFromFunction_score_notes function\<rparr>"

subsection \<open>FilterTagOutliers\<close>

text \<open>
  \<^verbatim>\<open>tag_filter.get_tag_thresholds(crhStats, percentile)\<close> is not part of the sources. It
  is taken as a parameter \<open>get_tag_thresholds\<close>, which returns the threshold of every
  adjusted ratio column.
\<close>

type_synonym tag_thresholds = "noteStatsRow list \<Rightarrow> int \<Rightarrow> string \<Rightarrow> fval"

text \<open>The rows of \<^verbatim>\<open>noteStats\<close> currently labelled \<^verbatim>\<open>c.currentlyRatedHelpful\<close>.\<close>

definition crhStats_of :: "constants \<Rightarrow> noteStatsRow list \<Rightarrow> labels \<Rightarrow> noteStatsRow list" where
  "crhStats_of c noteStats currentLabels =
     (let crhNotes = map fst (filter (\<lambda>p. snd p = currentlyRatedHelpful c) currentLabels)
      in map fst (merge_inner noteId id noteStats crhNotes))"

text \<open>The test of one row against one tag (the boolean mask of the loop body).\<close>

definition tag_triggers ::
  "constants \<Rightarrow> (string \<Rightarrow> fval) \<Rightarrow> fval \<Rightarrow> fval \<Rightarrow> string \<Rightarrow> noteStatsRow \<Rightarrow> bool" where
  "tag_triggers c thresholds minAdjustedTotal crhSuperThreshold tag r =
     (let adjustedColumn = tag @ adjustedSuffix c;
          adjustedRatioColumn = adjustedColumn @ ratioSuffix c
      in fgt (column r adjustedColumn) minAdjustedTotal
         \<and> fgt (column r adjustedRatioColumn) (thresholds adjustedRatioColumn)
         \<and> flt (noteIntercept r) crhSuperThreshold)"

text \<open>
  The loop over \<^verbatim>\<open>c.notHelpfulTagsTSVOrder\<close>, which appends to \<^verbatim>\<open>impactedNotes\<close> one
  row (note id, tag) per selected row of \<^verbatim>\<open>crhStats\<close>.
\<close>

fun tag_loop ::
  "constants \<Rightarrow> (string \<Rightarrow> fval) \<Rightarrow> fval \<Rightarrow> fval \<Rightarrow> noteStatsRow list
     \<Rightarrow> (int \<times> string) list \<Rightarrow> string list \<Rightarrow> (int \<times> string) list" where
  "tag_loop c thresholds minAdjustedTotal crhSuperThreshold crhStats impactedNotes [] =
     impactedNotes"
| "tag_loop c thresholds minAdjustedTotal crhSuperThreshold crhStats impactedNotes (tag # tags) =
     (if tag = notHelpfulHardToUnderstandKey c \<or> tag = notHelpfulNoteNotNeededKey c
      then tag_loop c thresholds minAdjustedTotal crhSuperThreshold crhStats impactedNotes tags
      else
        let tagFilteredNotes =
              map noteId
                (filter (tag_triggers c thresholds minAdjustedTotal crhSuperThreshold tag) crhStats)
        in tag_loop c thresholds minAdjustedTotal crhSuperThreshold crhStats
             (impactedNotes @ map (\<lambda>i. (i, tag)) tagFilteredNotes) tags)"

text \<open>The (note id, tag) pairs recorded by a call of \<^verbatim>\<open>score_notes\<close>.\<close>

definition recorded_pairs ::
  "constants \<Rightarrow> tag_thresholds \<Rightarrow> int \<Rightarrow> fval \<Rightarrow> fval \<Rightarrow> noteStatsRow list \<Rightarrow> labels
     \<Rightarrow> (int \<times> string) list" where
  "recorded_pairs c get_tag_thresholds tagRatioPercentile minAdjustedTotal crhSuperThreshold
       noteStats currentLabels =
     (let crhStats = crhStats_of c noteStats currentLabels;
          thresholds = get_tag_thresholds crhStats tagRatioPercentile
      in tag_loop c thresholds minAdjustedTotal crhSuperThreshold crhStats []
           (notHelpfulTagsTSVOrder c))"

definition FilterTagOutliers_score_notes ::
  "constants \<Rightarrow> tag_thresholds \<Rightarrow> int \<Rightarrow> fval \<Rightarrow> fval \<Rightarrow> noteStatsRow list \<Rightarrow> labels
     \<Rightarrow> error + (int list \<times> frame option)" where
  "FilterTagOutliers_score_notes c get_tag_thresholds tagRatioPercentile minAdjustedTotal
       crhSuperThreshold noteStats currentLabels =
     (let impactedNotes =
            map (\<lambda>g. (fst g, join '','' (snd g)))
              (groupby_aggregate_list
                 (recorded_pairs c get_tag_thresholds tagRatioPercentile minAdjustedTotal
                    crhSuperThreshold noteStats currentLabels))
      in Inr (drop_duplicates (map fst impactedNotes),
              Some \<lparr>columns = [activeFilterTagsKey c],
                    rows = map (\<lambda>p. (fst p, [activeFilterTagsKey c \<mapsto> Str (snd p)]))
                             impactedNotes\<rparr>))"

definition FilterTagOutliers ::
  "constants \<Rightarrow> tag_thresholds \<Rightarrow> RuleID \<Rightarrow> string \<Rightarrow> RuleID set \<Rightarrow> int \<Rightarrow> fval \<Rightarrow> fval
     \<Rightarrow> ScoringRule" where
  "FilterTagOutliers c get_tag_thresholds rid st deps tagRatioPercentile minAdjustedTotal
       crhSuperThreshold =
     \<lparr>ruleID = rid, status = st, dependencies = deps,
      score_notes = FilterTagOutliers_score_notes c get_tag_thresholds tagRatioPercentile
                      minAdjustedTotal crhSuperThreshold\<rparr>"

section \<open>The rule engine\<close>

text \<open>The variables of \<^verbatim>\<open>apply_scoring_rules\<close> that the loop over the rules updates.\<close>

record run_state =
  noteLabels :: labels
  noteRules :: "(int \<times> string) list"
  noteColumns :: frame
  ruleIDs :: "RuleID set"

definition initial_state :: run_state where
  "initial_state =
     \<lparr>noteLabels = [], noteRules = [], noteColumns = \<lparr>columns = [], rows = []\<rparr>, ruleIDs = {}\<rparr>"

text \<open>
  One iteration of \<^verbatim>\<open>for rule in rules\<close>, in two parts. The first part checks the
  dependencies and the rule id and calls \<^verbatim>\<open>rule.score_notes(noteStats, noteLabels)\<close>.
\<close>

definition invoke_rule ::
  "noteStatsRow list \<Rightarrow> run_state \<Rightarrow> ScoringRule \<Rightarrow> error + (int list \<times> frame option)" where
  "invoke_rule noteStats st rule =
     (case check_dependencies rule (ruleIDs st) of
        Inl e \<Rightarrow> Inl e
      | Inr _ \<Rightarrow>
          if get_rule_id rule \<in> ruleIDs st then Inl (AssertionError RepeatRuleID)
          else score_notes rule noteStats (noteLabels st))"

text \<open>
  The second part checks what the rule returned and merges it into the labels, the active
  rules and the new columns. The assertion on the column names,
  \<^verbatim>\<open>{c.noteIdKey} == set(noteColumns.columns) & set(additionalColumns.columns)\<close>, holds
  exactly when the two tables share no column other than the note id.
\<close>

definition merge_rule ::
  "run_state \<Rightarrow> ScoringRule \<Rightarrow> int list \<times> frame option \<Rightarrow> error + run_state" where
  "merge_rule st rule res =
     (let activeNotes = fst res; additionalColumns = snd res
      in if (case additionalColumns of
               None \<Rightarrow> False
             | Some a \<Rightarrow> set activeNotes \<noteq> set (map fst (rows a)))
         then Inl (AssertionError SupplementalIdsMismatch)
         else
           let st' = st\<lparr>ruleIDs := insert (get_rule_id rule) (ruleIDs st),
                        noteLabels := groupby_tail1
                          (noteLabels st @ map (\<lambda>i. (i, get_status rule)) activeNotes),
                        noteRules := noteRules st @ map (\<lambda>i. (i, get_name rule)) activeNotes\<rparr>
           in (case additionalColumns of
                 None \<Rightarrow> Inr st'
               | Some a \<Rightarrow>
                   if set (columns (noteColumns st)) \<inter> set (columns a) \<noteq> {}
                   then Inl (AssertionError ColumnCollision)
                   else Inr (st'\<lparr>noteColumns := merge_outer (noteColumns st) a\<rparr>)))"

definition apply_rule :: "noteStatsRow list \<Rightarrow> run_state \<Rightarrow> ScoringRule \<Rightarrow> error + run_state" where
  "apply_rule noteStats st rule =
     (case invoke_rule noteStats st rule of
        Inl e \<Rightarrow> Inl e
      | Inr res \<Rightarrow> merge_rule st rule res)"

fun scoring_loop :: "noteStatsRow list \<Rightarrow> run_state \<Rightarrow> ScoringRule list \<Rightarrow> error + run_state" where
  "scoring_loop noteStats st [] = Inr st"
| "scoring_loop noteStats st (rule # rules) =
     (case apply_rule noteStats st rule of
        Inl e \<Rightarrow> Inl e
      | Inr st' \<Rightarrow> scoring_loop noteStats st' rules)"

text \<open>
  What the rules returned during a run: for every rule whose \<^verbatim>\<open>score_notes\<close> was
  called and returned, in order of application, the rule with the active note ids and the
  new columns it returned. The list ends with the rule at which the run failed, if any.
\<close>

fun run_trace ::
  "noteStatsRow list \<Rightarrow> run_state \<Rightarrow> ScoringRule list
     \<Rightarrow> (ScoringRule \<times> int list \<times> frame option) list" where
  "run_trace noteStats st [] = []"
| "run_trace noteStats st (rule # rules) =
     (case invoke_rule noteStats st rule of
        Inl e \<Rightarrow> []
      | Inr res \<Rightarrow>
          (rule, res) #
          (case merge_rule st rule res of
             Inl e \<Rightarrow> []
           | Inr st' \<Rightarrow> run_trace noteStats st' rules))"

text \<open>A row of the result: the input row and the columns the engine adds.\<close>

record scoredNote =
  stats :: noteStatsRow
  ratingStatus :: string
  activeRules :: string
  supplemental :: "string \<rightharpoonup> cell"
  currentlyRatedHelpfulBool :: bool
  currentlyRatedNotHelpfulBool :: bool
  awaitingMoreRatingsBool :: bool

definition make_scoredNote ::
  "constants \<Rightarrow> ((noteStatsRow \<times> int \<times> string) \<times> int \<times> string) \<times> (int \<times> (string \<rightharpoonup> cell)) option
     \<Rightarrow> scoredNote" where
  "make_scoredNote c m =
     (let s = snd (snd (fst (fst m)))
      in \<lparr>stats = fst (fst (fst m)),
          ratingStatus = s,
          activeRules = snd (snd (fst m)),
          supplemental = (case snd m of None \<Rightarrow> Map.empty | Some x \<Rightarrow> snd x),
          currentlyRatedHelpfulBool = (s = currentlyRatedHelpful c),
          currentlyRatedNotHelpfulBool = (s = currentlyRatedNotHelpful c),
          awaitingMoreRatingsBool = (s = needsMoreRatings c)\<rparr>)"

text \<open>The part of \<^verbatim>\<open>apply_scoring_rules\<close> after the loop.\<close>

definition finish :: "constants \<Rightarrow> noteStatsRow list \<Rightarrow> run_state \<Rightarrow> error + scoredNote list" where
  "finish c noteStats st =
     (let noteRules' = map (\<lambda>g. (fst g, join '','' (snd g)))
                         (groupby_aggregate_list (noteRules st))
      in if set (map noteId noteStats) \<noteq> set (map fst (noteLabels st))
         then Inl (AssertionError LabelsIncomplete)
         else if set (map noteId noteStats) \<noteq> set (map fst noteRules')
         then Inl (AssertionError RulesIncomplete)
         else if set (map fst (rows (noteColumns st))) - set (map noteId noteStats) \<noteq> {}
         then Inl (AssertionError ColumnsOutsideInput)
         else
           let m1 = merge_inner noteId fst noteStats (noteLabels st);
               m2 = merge_inner (noteId \<circ> fst) fst m1 noteRules';
               m3 = merge_left (noteId \<circ> fst \<circ> fst) fst m2 (rows (noteColumns st))
           in if length m3 \<noteq> length noteStats then Inl (AssertionError RowCountMismatch)
              else Inr (map (make_scoredNote c) m3))"

definition apply_scoring_rules ::
  "constants \<Rightarrow> noteStatsRow list \<Rightarrow> ScoringRule list \<Rightarrow> error + scoredNote list" where
  "apply_scoring_rules c noteStats rules =
     (case scoring_loop noteStats initial_state rules of
        Inl e \<Rightarrow> Inl e
      | Inr st \<Rightarrow> finish c noteStats st)"

section \<open>Example inputs\<close>

text \<open>Concrete constants, notes and predicates on which the theorems below are evaluated.\<close>

definition example_constants :: constants where
  "example_constants =
     \<lparr>currentlyRatedHelpful = ''CRH'', currentlyRatedNotHelpful = ''CRNH'',
      needsMoreRatings = ''NMR'',
      notHelpfulTagsTSVOrder = [''spam'', ''hard'', ''harassment'', ''notNeeded''],
      notHelpfulHardToUnderstandKey = ''hard'', notHelpfulNoteNotNeededKey = ''notNeeded'',
      adjustedSuffix = ''Adjusted'', ratioSuffix = ''Ratio'',
      activeFilterTagsKey = ''activeFilterTags''\<rparr>"

definition example_note :: "int \<Rightarrow> real \<Rightarrow> noteStatsRow" where
  "example_note i x = \<lparr>noteId = i, noteIntercept = Fin x, column = (\<lambda>k. NaN)\<rparr>"

definition intercept_above :: "real \<Rightarrow> noteStatsRow list \<Rightarrow> bool list" where
  "intercept_above x noteStats = map (\<lambda>r. fgt (noteIntercept r) (Fin x)) noteStats"

text \<open>
  A rule list respects its declared dependencies when every rule's prerequisites are among
  the identities of the rules before it (\<open>prior\<close> holds the identities seen so far).
\<close>

fun respects_dependencies :: "RuleID set \<Rightarrow> ScoringRule list \<Rightarrow> bool" where
  "respects_dependencies prior [] = True"
| "respects_dependencies prior (rule # rules) =
     (dependencies rule \<subseteq> prior \<and> respects_dependencies (insert (get_rule_id rule) prior) rules)"

text \<open>A predicate that holds of every row, as the wrapped function of a \<^verbatim>\<open>RuleFromFunction\<close>.\<close>

definition always_true :: "noteStatsRow list \<Rightarrow> bool list" where
  "always_true noteStats = map (\<lambda>r. True) noteStats"

definition example_notes :: "noteStatsRow list" where
  "example_notes = [example_note 3 0.5, example_note 1 0.1, example_note 2 0.7]"

definition example_rules :: "ScoringRule list" where
  "example_rules =
     [DefaultRule INITIAL_NMR ''NMR'' {},
      RuleFromFunction GENERAL_CRH ''CRH'' {INITIAL_NMR} always_true]"

text \<open>
  Notes whose adjusted totals and ratios all have the value \<open>v\<close>, labels that rate them
  helpful, and a threshold provider that returns 1 for every column.
\<close>

definition example_tag_note :: "int \<Rightarrow> real \<Rightarrow> real \<Rightarrow> noteStatsRow" where
  "example_tag_note i x v = \<lparr>noteId = i, noteIntercept = Fin x, column = (\<lambda>k. Fin v)\<rparr>"

definition example_tag_notes :: "noteStatsRow list" where
  "example_tag_notes =
     [example_tag_note 7 0.45 3, example_tag_note 8 0.6 3, example_tag_note 9 0.45 0]"

definition example_labels :: labels where
  "example_labels = [(7, ''CRH''), (8, ''CRH''), (9, ''CRH'')]"

definition example_thresholds :: tag_thresholds where
  "example_thresholds crhStats percentile adjustedRatioColumn = Fin 1"

text \<open>
  Two rules outside the three variants of the source: one returns every note with a new
  column of the given name, the other returns every note with an empty table of new columns.
\<close>

definition example_column_rule :: "RuleID \<Rightarrow> string \<Rightarrow> ScoringRule" where
  "example_column_rule rid name =
     \<lparr>ruleID = rid, status = ''NMR'', dependencies = {},
      score_notes = (\<lambda>noteStats currentLabels.
        Inr (map noteId noteStats,
             Some \<lparr>columns = [name],
                   rows = map (\<lambda>r. (noteId r, [name \<mapsto> Str ''x''])) noteStats\<rparr>))\<rparr>"

definition example_mismatch_rule :: "RuleID \<Rightarrow> ScoringRule" where
  "example_mismatch_rule rid =
     \<lparr>ruleID = rid, status = ''NMR'', dependencies = {},
      score_notes = (\<lambda>noteStats currentLabels.
        Inr (map noteId noteStats, Some \<lparr>columns = [''foo''], rows = []\<rparr>))\<rparr>"

section \<open>Properties of the table operations\<close>

lemmas engine_defs =
  apply_scoring_rules_def finish_def apply_rule_def invoke_rule_def merge_rule_def
  check_dependencies_def get_rule_id_def get_name_def get_status_def initial_state_def
  make_scoredNote_def merge_inner_def merge_left_def merge_outer_def groupby_aggregate_list_def
  DefaultRule_def DefaultRule_score_notes_def RuleFromFunction_def RuleFromFunction_score_notes_def
  Let_def

lemma set_drop_duplicates: "set (drop_duplicates xs) = set xs"
  by (induction xs rule: drop_duplicates.induct) auto

lemma distinct_drop_duplicates: "distinct (drop_duplicates xs)"
  by (induction xs rule: drop_duplicates.induct) (auto simp: set_drop_duplicates)

lemma keys_groupby_tail1: "fst ` set (groupby_tail1 xs) = fst ` set xs"
  by (induction xs) auto

lemma set_groupby_tail1_subset: "set (groupby_tail1 xs) \<subseteq> set xs"
  by (induction xs) auto

lemma distinct_groupby_tail1: "distinct (map fst (groupby_tail1 xs))"
proof (induction xs)
  case Nil
  show ?case by simp
next
  case (Cons x xs)
  have "fst x \<notin> fst ` set xs \<Longrightarrow> fst x \<notin> fst ` set (groupby_tail1 xs)"
    by (simp add: keys_groupby_tail1)
  with Cons show ?case by auto
qed

lemma groupby_tail1_distinct: "distinct (map fst xs) \<Longrightarrow> groupby_tail1 xs = xs"
  by (induction xs) auto

lemma groupby_tail1_append:
  "groupby_tail1 (xs @ ys) =
     filter (\<lambda>p. fst p \<notin> fst ` set ys) (groupby_tail1 xs) @ groupby_tail1 ys"
  by (induction xs) (auto simp: image_Un)

lemma set_groupby_tail1_const:
  "set (groupby_tail1 (map (\<lambda>i. (i, s)) ids)) = (\<lambda>i. (i, s)) ` set ids"
proof
  show "set (groupby_tail1 (map (\<lambda>i. (i, s)) ids)) \<subseteq> (\<lambda>i. (i, s)) ` set ids"
    using set_groupby_tail1_subset [of "map (\<lambda>i. (i, s)) ids"] by auto
next
  show "(\<lambda>i. (i, s)) ` set ids \<subseteq> set (groupby_tail1 (map (\<lambda>i. (i, s)) ids))"
  proof
    fix p assume "p \<in> (\<lambda>i. (i, s)) ` set ids"
    then obtain i where i: "i \<in> set ids" "p = (i, s)" by auto
    then have "i \<in> fst ` set (groupby_tail1 (map (\<lambda>i. (i, s)) ids))"
      by (simp add: keys_groupby_tail1 image_image)
    then obtain q where q: "q \<in> set (groupby_tail1 (map (\<lambda>i. (i, s)) ids))" "fst q = i"
      by auto
    with set_groupby_tail1_subset [of "map (\<lambda>i. (i, s)) ids"] have "q = (i, s)" by auto
    with q i show "p \<in> set (groupby_tail1 (map (\<lambda>i. (i, s)) ids))" by simp
  qed
qed

lemma keys_groupby_aggregate_list:
  "map fst (groupby_aggregate_list xs) = sort (remdups (map fst xs))"
  by (simp add: groupby_aggregate_list_def comp_def)

lemma distinct_groupby_aggregate_list: "distinct (map fst (groupby_aggregate_list xs))"
  by (simp add: keys_groupby_aggregate_list)

lemma set_keys_groupby_aggregate_list:
  "set (map fst (groupby_aggregate_list xs)) = fst ` set xs"
  by (simp add: keys_groupby_aggregate_list)

lemma groupby_aggregate_list_member:
  "(k, vs) \<in> set (groupby_aggregate_list xs) \<longleftrightarrow>
     k \<in> fst ` set xs \<and> vs = map snd (filter (\<lambda>p. fst p = k) xs)"
  by (auto simp: groupby_aggregate_list_def)

lemma filter_unique_key:
  "distinct (map k R) \<Longrightarrow> r \<in> set R \<Longrightarrow> filter (\<lambda>x. k x = k r) R = [r]"
proof (induction R)
  case Nil
  then show ?case by simp
next
  case (Cons a R)
  show ?case
  proof (cases "a = r")
    case True
    with Cons.prems have "k r \<notin> k ` set R" by simp
    then have "filter (\<lambda>x. k x = k r) R = []"
      unfolding filter_empty_conv by (metis imageI)
    with True show ?thesis by simp
  next
    case False
    with Cons.prems have "r \<in> set R" "k a \<noteq> k r" by auto
    with Cons show ?thesis by simp
  qed
qed

lemma merge_inner_unique:
  "distinct (map kr R) \<Longrightarrow> kl ` set L \<subseteq> kr ` set R \<Longrightarrow> map fst (merge_inner kl kr L R) = L"
proof (induction L)
  case Nil
  show ?case by (simp add: merge_inner_def)
next
  case (Cons l L)
  then obtain r where r: "r \<in> set R" "kr r = kl l" by auto
  with Cons.prems(1) have "filter (\<lambda>x. kr x = kl l) R = [r]"
    using filter_unique_key [of kr R r] by simp
  moreover have "map fst (merge_inner kl kr L R) = L" using Cons by simp
  ultimately show ?case by (simp add: merge_inner_def)
qed

lemma merge_inner_member:
  "(l, r) \<in> set (merge_inner kl kr L R) \<longleftrightarrow> l \<in> set L \<and> r \<in> set R \<and> kr r = kl l"
  by (auto simp: merge_inner_def)

lemma length_merge_left_ge: "length L \<le> length (merge_left kl kr L R)"
  by (induction L) (auto simp: merge_left_def split: list.splits)

lemma merge_left_Cons:
  "merge_left kl kr (l # L) R =
     (case filter (\<lambda>r. kr r = kl l) R of [] \<Rightarrow> [(l, None)] | ms \<Rightarrow> map (\<lambda>r. (l, Some r)) ms)
     @ merge_left kl kr L R"
  by (simp add: merge_left_def)

lemma merge_left_same_length:
  "length (merge_left kl kr L R) = length L \<Longrightarrow> map fst (merge_left kl kr L R) = L"
proof (induction L)
  case Nil
  show ?case by (simp add: merge_left_def)
next
  case (Cons l L)
  let ?b = "case filter (\<lambda>r. kr r = kl l) R of [] \<Rightarrow> [(l, None)] | ms \<Rightarrow> map (\<lambda>r. (l, Some r)) ms"
  have b1: "1 \<le> length ?b" by (simp split: list.splits)
  have ge: "length L \<le> length (merge_left kl kr L R)" by (rule length_merge_left_ge)
  from Cons.prems have "length ?b + length (merge_left kl kr L R) = Suc (length L)"
    by (simp add: merge_left_Cons)
  with b1 ge have l1: "length ?b = 1" and l2: "length (merge_left kl kr L R) = length L"
    by linarith+
  have "map fst ?b = [l]" using l1 by (auto split: list.splits)
  with Cons.IH [OF l2] show ?case by (simp add: merge_left_Cons)
qed

section \<open>Properties of the loop and of the final merge\<close>

lemma scoring_loop_append:
  "scoring_loop ns st (pre @ rest) =
     (case scoring_loop ns st pre of Inl e \<Rightarrow> Inl e | Inr st' \<Rightarrow> scoring_loop ns st' rest)"
  by (induction pre arbitrary: st) (auto split: sum.splits)

lemma merge_rule_Inr:
  assumes "merge_rule st rule (ids, a) = Inr st'"
  shows "ruleIDs st' = insert (get_rule_id rule) (ruleIDs st)"
    and "noteLabels st' = groupby_tail1 (noteLabels st @ map (\<lambda>i. (i, get_status rule)) ids)"
    and "noteRules st' = noteRules st @ map (\<lambda>i. (i, get_name rule)) ids"
    and "noteColumns st' = (case a of None \<Rightarrow> noteColumns st | Some x \<Rightarrow> merge_outer (noteColumns st) x)"
  using assms by (auto simp: merge_rule_def Let_def split: if_splits option.splits)

lemma apply_rule_Inr:
  "apply_rule ns st rule = Inr st' \<longleftrightarrow>
     (\<exists>res. invoke_rule ns st rule = Inr res \<and> merge_rule st rule res = Inr st')"
  by (auto simp: apply_rule_def split: sum.splits)

lemma apply_rule_ruleIDs:
  "apply_rule ns st rule = Inr st' \<Longrightarrow> ruleIDs st' = insert (get_rule_id rule) (ruleIDs st)"
  by (auto simp: apply_rule_Inr dest: merge_rule_Inr(1))

lemma scoring_loop_ruleIDs:
  "scoring_loop ns st rules = Inr st' \<Longrightarrow> ruleIDs st' = ruleIDs st \<union> get_rule_id ` set rules"
proof (induction rules arbitrary: st)
  case Nil
  then show ?case by simp
next
  case (Cons r rules)
  then obtain st1 where s1: "apply_rule ns st r = Inr st1" "scoring_loop ns st1 rules = Inr st'"
    by (auto split: sum.splits)
  from Cons.IH [OF s1(2)] apply_rule_ruleIDs [OF s1(1)] show ?case by auto
qed

lemma apply_rule_labels_distinct:
  "apply_rule ns st rule = Inr st' \<Longrightarrow> distinct (map fst (noteLabels st'))"
  by (auto simp: apply_rule_Inr distinct_groupby_tail1 dest!: merge_rule_Inr(2))

lemma scoring_loop_labels_distinct:
  "distinct (map fst (noteLabels st)) \<Longrightarrow> scoring_loop ns st rules = Inr st'
     \<Longrightarrow> distinct (map fst (noteLabels st'))"
proof (induction rules arbitrary: st)
  case Nil
  then show ?case by simp
next
  case (Cons r rules)
  then obtain st1 where s1: "apply_rule ns st r = Inr st1" "scoring_loop ns st1 rules = Inr st'"
    by (auto split: sum.splits)
  from apply_rule_labels_distinct [OF s1(1)] Cons.IH s1(2) show ?case by blast
qed

lemma finish_rows:
  assumes fin: "finish c ns st = Inr out"
    and dl: "distinct (map fst (noteLabels st))"
  shows "map stats out = ns"
    and "\<forall>row\<in>set out. (noteId (stats row), ratingStatus row) \<in> set (noteLabels st)
           \<and> activeRules row =
               join '','' (map snd (filter (\<lambda>p. fst p = noteId (stats row)) (noteRules st)))"
proof -
  define nr where "nr = map (\<lambda>g. (fst g, join '','' (snd g))) (groupby_aggregate_list (noteRules st))"
  define m1 where "m1 = merge_inner noteId fst ns (noteLabels st)"
  define m2 where "m2 = merge_inner (noteId \<circ> fst) fst m1 nr"
  define m3 where "m3 = merge_left (noteId \<circ> fst \<circ> fst) fst m2 (rows (noteColumns st))"
  from fin have c1: "set (map noteId ns) = set (map fst (noteLabels st))"
    and c2: "set (map noteId ns) = set (map fst nr)"
    and c4: "length m3 = length ns"
    and out: "out = map (make_scoredNote c) m3"
    by (auto simp: finish_def Let_def nr_def m1_def m2_def m3_def split: if_splits)
  have k1: "map fst m1 = ns"
    unfolding m1_def using dl c1 by (intro merge_inner_unique) auto
  have dnr: "distinct (map fst nr)"
    by (simp add: nr_def comp_def distinct_groupby_aggregate_list [unfolded comp_def])
  have "(noteId \<circ> fst) ` set m1 = noteId ` set (map fst m1)" by auto
  with k1 c2 have sub: "(noteId \<circ> fst) ` set m1 \<subseteq> fst ` set nr" by auto
  have k2: "map fst m2 = m1"
    unfolding m2_def using dnr sub by (rule merge_inner_unique)
  from k1 k2 have "length m2 = length ns" by (metis length_map)
  with c4 have "length m3 = length m2" by simp
  then have k3: "map fst m3 = m2"
    unfolding m3_def by (rule merge_left_same_length)
  have "map stats out = map (fst \<circ> fst \<circ> fst) m3"
    by (simp add: out make_scoredNote_def Let_def comp_def)
  also have "\<dots> = map (fst \<circ> fst) (map fst m3)" by (simp add: comp_def)
  also have "\<dots> = map fst (map fst m2)" by (simp add: k3 comp_def)
  also have "\<dots> = ns" by (simp add: k2 k1)
  finally show "map stats out = ns" .
  show "\<forall>row\<in>set out. (noteId (stats row), ratingStatus row) \<in> set (noteLabels st)
           \<and> activeRules row =
               join '','' (map snd (filter (\<lambda>p. fst p = noteId (stats row)) (noteRules st)))"
  proof
    fix row assume "row \<in> set out"
    then obtain m where m: "m \<in> set m3" "row = make_scoredNote c m" by (auto simp: out)
    then have "fst m \<in> set (map fst m3)" by simp
    then have in2: "fst m \<in> set m2" by (simp add: k3)
    then have "fst (fst m) \<in> set (map fst m2)" by simp
    then have in1: "fst (fst m) \<in> set m1" by (simp add: k2)
    obtain l lab where e1: "fst (fst m) = (l, lab)" by (cases "fst (fst m)")
    obtain g where e2: "fst m = ((l, lab), g)" using e1 by (cases "fst m") auto
    from in1 e1 have lab: "lab \<in> set (noteLabels st)" "fst lab = noteId l"
      by (auto simp: m1_def merge_inner_member)
    from in2 e2 have g: "g \<in> set nr" "fst g = noteId l"
      by (auto simp: m2_def merge_inner_member)
    from g(1) obtain k vs where kv: "(k, vs) \<in> set (groupby_aggregate_list (noteRules st))"
      "g = (k, join '','' vs)" by (auto simp: nr_def)
    then have vs: "vs = map snd (filter (\<lambda>p. fst p = k) (noteRules st))"
      by (simp add: groupby_aggregate_list_member)
    have st: "stats row = l" "ratingStatus row = snd lab" "activeRules row = snd g"
      using m(2) e1 e2 by (simp_all add: make_scoredNote_def Let_def)
    from lab have "(noteId l, snd lab) \<in> set (noteLabels st)" by (metis prod.collapse)
    moreover have "snd g = join '','' (map snd (filter (\<lambda>p. fst p = noteId l) (noteRules st)))"
      using kv(2) vs g(2) by simp
    ultimately show "(noteId (stats row), ratingStatus row) \<in> set (noteLabels st)
           \<and> activeRules row =
               join '','' (map snd (filter (\<lambda>p. fst p = noteId (stats row)) (noteRules st)))"
      by (simp add: st)
  qed
qed

section \<open>One row and one status per note\<close>

text \<open>
  Claim C1 as stated fails: a rule list that respects its declared dependencies need not
  label every note. With a single predicate rule that does not match the only note, the
  run stops at the assertion that every note has a label.
\<close>

theorem apply_scoring_rules_unlabelled_note_fails:
  "respects_dependencies {} [RuleFromFunction GENERAL_CRH ''CRH'' {} (intercept_above 0.4)]
   \<and> apply_scoring_rules example_constants [example_note 1 0.1]
        [RuleFromFunction GENERAL_CRH ''CRH'' {} (intercept_above 0.4)]
      = Inl (AssertionError LabelsIncomplete)"
  by (simp add: engine_defs example_constants_def example_note_def intercept_above_def fgt_def
          insert_commute)

lemma unique_label:
  "distinct (map fst xs) \<Longrightarrow> (i, s) \<in> set xs \<Longrightarrow> (i, s') \<in> set xs \<longleftrightarrow> s' = s"
  by (metis eq_key_imp_eq_value)

text \<open>
  Claim C1, amended: whenever \<^verbatim>\<open>apply_scoring_rules\<close> returns a table, the table has
  exactly one row per row of the input, in the input's order and carrying that input row, so
  the column of note ids of the result is that of the input; and every row carries exactly
  one final status, the only entry the label table holds for its note id.
\<close>

theorem apply_scoring_rules_one_row_per_note:
  assumes "apply_scoring_rules c noteStats rules = Inr scoredNotes"
  shows "length scoredNotes = length noteStats
     \<and> map stats scoredNotes = noteStats
     \<and> map (\<lambda>row. noteId (stats row)) scoredNotes = map noteId noteStats
     \<and> (\<exists>st. scoring_loop noteStats initial_state rules = Inr st
           \<and> (\<forall>row\<in>set scoredNotes. \<forall>s.
                 (noteId (stats row), s) \<in> set (noteLabels st) \<longleftrightarrow> s = ratingStatus row))"
proof -
  from assms obtain st where st: "scoring_loop noteStats initial_state rules = Inr st"
    and fin: "finish c noteStats st = Inr scoredNotes"
    by (auto simp: apply_scoring_rules_def split: sum.splits)
  have "distinct (map fst (noteLabels initial_state))" by (simp add: initial_state_def)
  then have dl: "distinct (map fst (noteLabels st))"
    using st by (rule scoring_loop_labels_distinct)
  have m: "map stats scoredNotes = noteStats" by (rule finish_rows(1) [OF fin dl])
  then have len: "length scoredNotes = length noteStats" by (metis length_map)
  from m have "map noteId (map stats scoredNotes) = map noteId noteStats" by simp
  then have ids: "map (\<lambda>row. noteId (stats row)) scoredNotes = map noteId noteStats"
    by (simp add: comp_def)
  have "\<forall>row\<in>set scoredNotes. \<forall>s.
          (noteId (stats row), s) \<in> set (noteLabels st) \<longleftrightarrow> s = ratingStatus row"
    using finish_rows(2) [OF fin dl] unique_label [OF dl] by blast
  with st len m ids show ?thesis by blast
qed

theorem apply_scoring_rules_one_row_per_note_witness:
  "apply_scoring_rules example_constants [example_note 3 0.5, example_note 1 0.1]
     [DefaultRule INITIAL_NMR ''NMR'' {},
      RuleFromFunction GENERAL_CRH ''CRH'' {INITIAL_NMR} (intercept_above 0.4)]
   = Inr [\<lparr>stats = example_note 3 0.5, ratingStatus = ''CRH'',
           activeRules = ''InitialNMR (v1.0),GeneralCRH (v1.0)'', supplemental = Map.empty,
           currentlyRatedHelpfulBool = True, currentlyRatedNotHelpfulBool = False,
           awaitingMoreRatingsBool = False\<rparr>,
          \<lparr>stats = example_note 1 0.1, ratingStatus = ''NMR'',
           activeRules = ''InitialNMR (v1.0)'', supplemental = Map.empty,
           currentlyRatedHelpfulBool = False, currentlyRatedNotHelpfulBool = False,
           awaitingMoreRatingsBool = True\<rparr>]
   \<and> length [\<lparr>stats = example_note 3 0.5, ratingStatus = ''CRH'',
           activeRules = ''InitialNMR (v1.0),GeneralCRH (v1.0)'', supplemental = Map.empty,
           currentlyRatedHelpfulBool = True, currentlyRatedNotHelpfulBool = False,
           awaitingMoreRatingsBool = False\<rparr>,
          \<lparr>stats = example_note 1 0.1, ratingStatus = ''NMR'',
           activeRules = ''InitialNMR (v1.0)'', supplemental = Map.empty,
           currentlyRatedHelpfulBool = False, currentlyRatedNotHelpfulBool = False,
           awaitingMoreRatingsBool = True\<rparr>] = length [example_note 3 0.5, example_note 1 0.1]"
proof -
  have run: "apply_scoring_rules example_constants [example_note 3 0.5, example_note 1 0.1]
     [DefaultRule INITIAL_NMR ''NMR'' {},
      RuleFromFunction GENERAL_CRH ''CRH'' {INITIAL_NMR} (intercept_above 0.4)]
   = Inr [\<lparr>stats = example_note 3 0.5, ratingStatus = ''CRH'',
           activeRules = ''InitialNMR (v1.0),GeneralCRH (v1.0)'', supplemental = Map.empty,
           currentlyRatedHelpfulBool = True, currentlyRatedNotHelpfulBool = False,
           awaitingMoreRatingsBool = False\<rparr>,
          \<lparr>stats = example_note 1 0.1, ratingStatus = ''NMR'',
           activeRules = ''InitialNMR (v1.0)'', supplemental = Map.empty,
           currentlyRatedHelpfulBool = False, currentlyRatedNotHelpfulBool = False,
           awaitingMoreRatingsBool = True\<rparr>]"
    by (simp add: engine_defs example_constants_def example_note_def intercept_above_def fgt_def
          insert_commute)
  from apply_scoring_rules_one_row_per_note [OF run] run show ?thesis by blast
qed

lemmas example_defs =
  example_constants_def example_note_def example_notes_def example_rules_def
  intercept_above_def always_true_def fgt_def

section \<open>The label table: one entry per note, last status wins\<close>

lemma merge_left_unique:
  "distinct (map kr R) \<Longrightarrow> length (merge_left kl kr L R) = length L"
proof (induction L)
  case Nil
  show ?case by (simp add: merge_left_def)
next
  case (Cons l L)
  have "length (case filter (\<lambda>r. kr r = kl l) R of [] \<Rightarrow> [(l, None)]
                | ms \<Rightarrow> map (\<lambda>r. (l, Some r)) ms) = 1"
  proof (cases "kl l \<in> kr ` set R")
    case True
    then obtain r where "r \<in> set R" "kr r = kl l" by auto
    with Cons.prems have "filter (\<lambda>x. kr x = kl l) R = [r]"
      using filter_unique_key [of kr R r] by simp
    then show ?thesis by simp
  next
    case False
    then have "filter (\<lambda>x. kr x = kl l) R = []"
      unfolding filter_empty_conv by (metis imageI)
    then show ?thesis by simp
  qed
  with Cons show ?case by (simp add: merge_left_Cons)
qed

lemma finish_succeeds:
  assumes dl: "distinct (map fst (noteLabels st))"
    and kl: "fst ` set (noteLabels st) = noteId ` set ns"
    and kr: "fst ` set (noteRules st) = noteId ` set ns"
    and dc: "distinct (map fst (rows (noteColumns st)))"
    and kc: "fst ` set (rows (noteColumns st)) \<subseteq> noteId ` set ns"
  shows "\<exists>out. finish c ns st = Inr out"
proof -
  define nr where "nr = map (\<lambda>g. (fst g, join '','' (snd g))) (groupby_aggregate_list (noteRules st))"
  define m1 where "m1 = merge_inner noteId fst ns (noteLabels st)"
  define m2 where "m2 = merge_inner (noteId \<circ> fst) fst m1 nr"
  define m3 where "m3 = merge_left (noteId \<circ> fst \<circ> fst) fst m2 (rows (noteColumns st))"
  have knr: "map fst nr = map fst (groupby_aggregate_list (noteRules st))"
    by (simp add: nr_def comp_def)
  have c1: "set (map noteId ns) = set (map fst (noteLabels st))" using kl by simp
  have c2: "set (map noteId ns) = set (map fst nr)"
    using kr by (simp only: knr set_keys_groupby_aggregate_list) simp
  have c3: "set (map fst (rows (noteColumns st))) - set (map noteId ns) = {}" using kc by auto
  have k1: "map fst m1 = ns"
    unfolding m1_def using dl c1 by (intro merge_inner_unique) auto
  have dnr: "distinct (map fst nr)"
    by (simp only: knr distinct_groupby_aggregate_list)
  have "(noteId \<circ> fst) ` set m1 = noteId ` set (map fst m1)" by auto
  with k1 c2 have sub: "(noteId \<circ> fst) ` set m1 \<subseteq> fst ` set nr" by auto
  have k2: "map fst m2 = m1"
    unfolding m2_def using dnr sub by (rule merge_inner_unique)
  from k1 k2 have "length m2 = length ns" by (metis length_map)
  moreover have "length m3 = length m2" unfolding m3_def using dc by (rule merge_left_unique)
  ultimately have c4: "length m3 = length ns" by simp
  have "finish c ns st = Inr (map (make_scoredNote c) m3)"
    unfolding finish_def Let_def
    using c1 c2 c3 c4 by (simp only: nr_def [symmetric] m1_def [symmetric] m2_def [symmetric] m3_def [symmetric] if_False if_True simp_thms)
  then show ?thesis by blast
qed

lemma all_true_mask: "map fst (filter snd (zip xs (map (\<lambda>r. True) xs))) = xs"
  by (induction xs) auto

lemma merged_labels:
  assumes "distinct (map fst L)"
  shows "(i, s) \<in> set (groupby_tail1 (L @ map (\<lambda>i. (i, t)) ids)) \<longleftrightarrow>
           (if i \<in> set ids then s = t else (i, s) \<in> set L)"
proof -
  have "fst ` set (map (\<lambda>i. (i, t)) ids) = set ids" by (simp add: image_image)
  then show ?thesis
    by (auto simp: groupby_tail1_append groupby_tail1_distinct [OF assms] set_groupby_tail1_const)
qed

lemma scoring_loop_snoc:
  "scoring_loop ns st (pre @ [rule]) =
     (case scoring_loop ns st pre of Inl e \<Rightarrow> Inl e | Inr st' \<Rightarrow> apply_rule ns st' rule)"
  by (simp add: scoring_loop_append split: sum.splits)

lemma invoke_rule_Inr:
  "invoke_rule ns st rule = Inr res \<longleftrightarrow>
     dependencies rule \<subseteq> ruleIDs st \<and> get_rule_id rule \<notin> ruleIDs st
     \<and> score_notes rule ns (noteLabels st) = Inr res"
  by (auto simp: invoke_rule_def check_dependencies_def split: sum.splits if_splits)

lemma default_then_always_true:
  assumes ne: "rid1 \<noteq> rid2" and deps: "deps \<subseteq> {rid1}"
  shows "\<exists>out. apply_scoring_rules c ns
             [DefaultRule rid1 nmr {}, RuleFromFunction rid2 crh deps always_true] = Inr out
           \<and> map stats out = ns \<and> (\<forall>row\<in>set out. ratingStatus row = crh)"
proof -
  let ?D = "DefaultRule rid1 nmr {}"
  let ?P = "RuleFromFunction rid2 crh deps always_true"
  let ?ids = "map noteId ns"
  define st1 where "st1 = initial_state\<lparr>ruleIDs := {rid1},
      noteLabels := groupby_tail1 (map (\<lambda>i. (i, nmr)) ?ids),
      noteRules := map (\<lambda>i. (i, get_name ?D)) ?ids\<rparr>"
  define st2 where "st2 = st1\<lparr>ruleIDs := {rid2, rid1},
      noteLabels := groupby_tail1 (noteLabels st1 @ map (\<lambda>i. (i, crh)) ?ids),
      noteRules := noteRules st1 @ map (\<lambda>i. (i, get_name ?P)) ?ids\<rparr>"
  have a1: "apply_rule ns initial_state ?D = Inr st1"
    by (simp add: apply_rule_def invoke_rule_def merge_rule_def check_dependencies_def
        DefaultRule_def DefaultRule_score_notes_def initial_state_def st1_def get_rule_id_def
        get_status_def)
  have sc: "score_notes ?P ns (noteLabels st1) = Inr (?ids, None)"
    using all_true_mask [of ns]
    by (simp add: RuleFromFunction_def RuleFromFunction_score_notes_def always_true_def
        map_map [symmetric] del: map_map)
  have r1: "ruleIDs st1 = {rid1}" by (simp add: st1_def)
  have a2: "apply_rule ns st1 ?P = Inr st2"
    using ne deps sc
    by (simp add: apply_rule_def invoke_rule_def merge_rule_def check_dependencies_def r1
        st2_def get_rule_id_def get_status_def RuleFromFunction_def Diff_eq_empty_iff)
  have loop: "scoring_loop ns initial_state [?D, ?P] = Inr st2" by (simp add: a1 a2)
  have cols: "rows (noteColumns st2) = []" by (simp add: st2_def st1_def initial_state_def)
  have dl: "distinct (map fst (noteLabels st2))" by (simp add: st2_def distinct_groupby_tail1)
  have kl: "fst ` set (noteLabels st2) = noteId ` set ns"
    by (simp add: st2_def st1_def keys_groupby_tail1 image_Un image_image)
  have kr: "fst ` set (noteRules st2) = noteId ` set ns"
    by (simp add: st2_def st1_def image_Un image_image)
  from finish_succeeds [OF dl kl kr, of c] cols obtain out where out: "finish c ns st2 = Inr out"
    by auto
  have d1: "distinct (map fst (noteLabels st1))" by (simp add: st1_def distinct_groupby_tail1)
  have lab: "\<And>i s. (i, s) \<in> set (noteLabels st2) \<Longrightarrow> s = crh"
  proof -
    fix i s assume m: "(i, s) \<in> set (noteLabels st2)"
    then have "i \<in> fst ` set (noteLabels st2)" by force
    then have "i \<in> set ?ids" by (simp add: kl)
    with m merged_labels [OF d1, of i s crh ?ids] show "s = crh" by (simp add: st2_def)
  qed
  have "\<forall>row\<in>set out. ratingStatus row = crh"
    using finish_rows(2) [OF out dl] lab by blast
  moreover have "map stats out = ns" by (rule finish_rows(1) [OF out dl])
  moreover have "apply_scoring_rules c ns [?D, ?P] = Inr out"
    by (simp only: apply_scoring_rules_def loop sum.case out)
  ultimately show ?thesis by blast
qed

text \<open>
  Claim C2. At every point of a run the label table holds at most one entry per note id.
  When the rule at position \<open>k\<close> returns the ids \<open>ids\<close>, the label table after that rule
  holds, for every id in \<open>ids\<close>, the status of that rule and nothing else, and is unchanged
  for every other id. For the rule list of a default rule followed by an always-true
  predicate rule the run completes and every note's final status is the predicate rule's.
\<close>

theorem label_table_last_status_wins:
  "(\<forall>k st. scoring_loop ns initial_state (take k rules) = Inr st
        \<longrightarrow> distinct (map fst (noteLabels st)))
   \<and> (\<forall>k st0 st1 ids a.
         k < length rules
         \<and> scoring_loop ns initial_state (take k rules) = Inr st0
         \<and> score_notes (rules ! k) ns (noteLabels st0) = Inr (ids, a)
         \<and> scoring_loop ns initial_state (take (Suc k) rules) = Inr st1
        \<longrightarrow> (\<forall>i s. (i, s) \<in> set (noteLabels st1) \<longleftrightarrow>
                     (if i \<in> set ids then s = get_status (rules ! k)
                      else (i, s) \<in> set (noteLabels st0))))
   \<and> (rid1 \<noteq> rid2 \<and> deps \<subseteq> {rid1}
        \<longrightarrow> (\<exists>out. apply_scoring_rules c ns
                      [DefaultRule rid1 nmr {}, RuleFromFunction rid2 crh deps always_true]
                    = Inr out
                  \<and> map stats out = ns \<and> (\<forall>row\<in>set out. ratingStatus row = crh)))"
proof (intro conjI allI impI)
  fix k st assume "scoring_loop ns initial_state (take k rules) = Inr st"
  moreover have "distinct (map fst (noteLabels initial_state))" by (simp add: initial_state_def)
  ultimately show "distinct (map fst (noteLabels st))"
    using scoring_loop_labels_distinct by blast
next
  fix k st0 st1 ids a i s
  assume h: "k < length rules
         \<and> scoring_loop ns initial_state (take k rules) = Inr st0
         \<and> score_notes (rules ! k) ns (noteLabels st0) = Inr (ids, a)
         \<and> scoring_loop ns initial_state (take (Suc k) rules) = Inr st1"
  then have tk: "take (Suc k) rules = take k rules @ [rules ! k]"
    by (simp add: take_Suc_conv_app_nth)
  from h have l0: "scoring_loop ns initial_state (take k rules) = Inr st0" by simp
  from h have "scoring_loop ns initial_state (take k rules @ [rules ! k]) = Inr st1"
    by (simp add: tk)
  then have ap: "apply_rule ns st0 (rules ! k) = Inr st1"
    by (simp add: scoring_loop_snoc l0)
  then obtain res where inv: "invoke_rule ns st0 (rules ! k) = Inr res"
    and mr: "merge_rule st0 (rules ! k) res = Inr st1"
    by (auto simp: apply_rule_Inr)
  from inv h have "res = (ids, a)" by (simp add: invoke_rule_Inr)
  with mr have lab: "noteLabels st1 =
      groupby_tail1 (noteLabels st0 @ map (\<lambda>i. (i, get_status (rules ! k))) ids)"
    by (simp add: merge_rule_Inr(2))
  have "distinct (map fst (noteLabels initial_state))" by (simp add: initial_state_def)
  then have d0: "distinct (map fst (noteLabels st0))"
    using l0 by (rule scoring_loop_labels_distinct)
  show "(i, s) \<in> set (noteLabels st1) \<longleftrightarrow>
          (if i \<in> set ids then s = get_status (rules ! k) else (i, s) \<in> set (noteLabels st0))"
    unfolding lab by (rule merged_labels [OF d0])
next
  assume "rid1 \<noteq> rid2 \<and> deps \<subseteq> {rid1}"
  then show "\<exists>out. apply_scoring_rules c ns
                      [DefaultRule rid1 nmr {}, RuleFromFunction rid2 crh deps always_true]
                    = Inr out
                  \<and> map stats out = ns \<and> (\<forall>row\<in>set out. ratingStatus row = crh)"
    using default_then_always_true by blast
qed

theorem label_table_last_status_wins_witness:
  "scoring_loop example_notes initial_state (take 1 example_rules) =
     Inr \<lparr>noteLabels = [(3, ''NMR''), (1, ''NMR''), (2, ''NMR'')],
          noteRules = [(3, ''InitialNMR (v1.0)''), (1, ''InitialNMR (v1.0)''),
                       (2, ''InitialNMR (v1.0)'')],
          noteColumns = \<lparr>columns = [], rows = []\<rparr>, ruleIDs = {INITIAL_NMR}\<rparr>
   \<and> score_notes (example_rules ! 1) example_notes [(3, ''NMR''), (1, ''NMR''), (2, ''NMR'')] =
       Inr ([3, 1, 2], None)
   \<and> scoring_loop example_notes initial_state (take 2 example_rules) =
     Inr \<lparr>noteLabels = [(3, ''CRH''), (1, ''CRH''), (2, ''CRH'')],
          noteRules = [(3, ''InitialNMR (v1.0)''), (1, ''InitialNMR (v1.0)''),
                       (2, ''InitialNMR (v1.0)''), (3, ''GeneralCRH (v1.0)''),
                       (1, ''GeneralCRH (v1.0)''), (2, ''GeneralCRH (v1.0)'')],
          noteColumns = \<lparr>columns = [], rows = []\<rparr>, ruleIDs = {GENERAL_CRH, INITIAL_NMR}\<rparr>
   \<and> distinct (map fst [(3::int, ''CRH''), (1, ''CRH''), (2, ''CRH'')])
   \<and> (1, ''CRH'') \<in> set [(3::int, ''CRH''), (1, ''CRH''), (2, ''CRH'')]
   \<and> INITIAL_NMR \<noteq> GENERAL_CRH \<and> {INITIAL_NMR} \<subseteq> {INITIAL_NMR}
   \<and> map ratingStatus (projr (apply_scoring_rules example_constants example_notes
         [DefaultRule INITIAL_NMR ''NMR'' {},
          RuleFromFunction GENERAL_CRH ''CRH'' {INITIAL_NMR} always_true])) =
       [''CRH'', ''CRH'', ''CRH'']"
proof -
  let ?st0 = "\<lparr>noteLabels = [(3, ''NMR''), (1, ''NMR''), (2, ''NMR'')],
          noteRules = [(3, ''InitialNMR (v1.0)''), (1, ''InitialNMR (v1.0)''),
                       (2, ''InitialNMR (v1.0)'')],
          noteColumns = \<lparr>columns = [], rows = []\<rparr>, ruleIDs = {INITIAL_NMR}\<rparr>"
  let ?st1 = "\<lparr>noteLabels = [(3, ''CRH''), (1, ''CRH''), (2, ''CRH'')],
          noteRules = [(3, ''InitialNMR (v1.0)''), (1, ''InitialNMR (v1.0)''),
                       (2, ''InitialNMR (v1.0)''), (3, ''GeneralCRH (v1.0)''),
                       (1, ''GeneralCRH (v1.0)''), (2, ''GeneralCRH (v1.0)'')],
          noteColumns = \<lparr>columns = [], rows = []\<rparr>, ruleIDs = {GENERAL_CRH, INITIAL_NMR}\<rparr>"
  have h0: "scoring_loop example_notes initial_state (take 1 example_rules) = Inr ?st0"
    by (simp add: engine_defs example_defs)
  have hs': "score_notes (example_rules ! 1) example_notes
                [(3, ''NMR''), (1, ''NMR''), (2, ''NMR'')] = Inr ([3, 1, 2], None)"
    by (simp add: engine_defs example_defs)
  then have hs: "score_notes (example_rules ! 1) example_notes (noteLabels ?st0) =
                   Inr ([3, 1, 2], None)"
    by simp
  have h2: "scoring_loop example_notes initial_state (take 2 example_rules) = Inr ?st1"
    by (simp add: engine_defs example_defs)
  then have h1: "scoring_loop example_notes initial_state (take (Suc 1) example_rules) = Inr ?st1"
    by (simp only: Suc_1)
  have k: "1 < length example_rules" by (simp add: example_rules_def)
  have ne: "INITIAL_NMR \<noteq> GENERAL_CRH \<and> {INITIAL_NMR} \<subseteq> {INITIAL_NMR}" by simp
  note inst = label_table_last_status_wins [of example_notes example_rules INITIAL_NMR GENERAL_CRH "{INITIAL_NMR}"
      example_constants "''NMR''" "''CRH''"]
  have d: "distinct (map fst (noteLabels ?st1))"
    by (rule mp [OF spec [OF spec [OF conjunct1 [OF inst]]] h1])
  from conjunct1 [OF conjunct2 [OF inst]] k h0 hs h1 have "(1, ''CRH'') \<in> set (noteLabels ?st1) \<longleftrightarrow>
      (if 1 \<in> set [3, 1, 2::int] then ''CRH'' = get_status (example_rules ! 1)
       else (1, ''CRH'') \<in> set (noteLabels ?st0))"
    by blast
  then have m: "(1, ''CRH'') \<in> set (noteLabels ?st1)"
    by (simp add: example_rules_def get_status_def RuleFromFunction_def)
  from d have d': "distinct (map fst [(3::int, ''CRH''), (1, ''CRH''), (2, ''CRH'')])" by simp
  from m have m': "(1, ''CRH'') \<in> set [(3::int, ''CRH''), (1, ''CRH''), (2, ''CRH'')]" by simp
  have "\<exists>out. apply_scoring_rules example_constants example_notes
         [DefaultRule INITIAL_NMR ''NMR'' {},
          RuleFromFunction GENERAL_CRH ''CRH'' {INITIAL_NMR} always_true] = Inr out
       \<and> map stats out = example_notes \<and> (\<forall>row\<in>set out. ratingStatus row = ''CRH'')"
    by (rule mp [OF conjunct2 [OF conjunct2 [OF inst]] ne])
  then obtain out where out: "apply_scoring_rules example_constants example_notes
         [DefaultRule INITIAL_NMR ''NMR'' {},
          RuleFromFunction GENERAL_CRH ''CRH'' {INITIAL_NMR} always_true] = Inr out"
    "map stats out = example_notes" "\<forall>row\<in>set out. ratingStatus row = ''CRH''"
    by (elim exE conjE)
  from out(2) have "length (map stats out) = length example_notes" by (rule arg_cong)
  then have "length out = Suc (Suc (Suc 0))" by (simp add: example_notes_def)
  then obtain a b c where abc: "out = [a, b, c]" by (auto simp: length_Suc_conv)
  with out(3) have "map ratingStatus out = [''CRH'', ''CRH'', ''CRH'']" by simp
  with out(1) have r: "map ratingStatus (projr (apply_scoring_rules example_constants
         example_notes [DefaultRule INITIAL_NMR ''NMR'' {},
          RuleFromFunction GENERAL_CRH ''CRH'' {INITIAL_NMR} always_true])) =
       [''CRH'', ''CRH'', ''CRH'']" by simp
  show ?thesis
    by (intro conjI; (rule h0 hs' h2 d' m' r conjunct1 [OF ne] conjunct2 [OF ne]))
qed

section \<open>The tag outlier filter\<close>

lemmas filter_defs =
  FilterTagOutliers_def FilterTagOutliers_score_notes_def recorded_pairs_def crhStats_of_def
  tag_triggers_def example_tag_note_def example_tag_notes_def example_labels_def
  example_thresholds_def

lemma tag_loop_eq:
  "tag_loop c thr mn sp crh acc tags =
     acc @ concat (map (\<lambda>tag. map (\<lambda>r. (noteId r, tag)) (filter (tag_triggers c thr mn sp tag) crh))
                    (filter (\<lambda>tag. tag \<noteq> notHelpfulHardToUnderstandKey c
                                  \<and> tag \<noteq> notHelpfulNoteNotNeededKey c) tags))"
  by (induction tags arbitrary: acc) (simp_all add: Let_def)

lemma crhStats_of_member:
  "r \<in> set (crhStats_of c ns labels) \<longleftrightarrow>
     r \<in> set ns \<and> (noteId r, currentlyRatedHelpful c) \<in> set labels"
proof -
  let ?crhNotes = "map fst (filter (\<lambda>p. snd p = currentlyRatedHelpful c) labels)"
  have "r \<in> set (crhStats_of c ns labels) \<longleftrightarrow>
          (\<exists>x. (r, x) \<in> set (merge_inner noteId id ns ?crhNotes))"
    by (force simp: crhStats_of_def Let_def)
  also have "\<dots> \<longleftrightarrow> r \<in> set ns \<and> noteId r \<in> set ?crhNotes"
    by (simp only: merge_inner_member id_apply) blast
  also have "noteId r \<in> set ?crhNotes \<longleftrightarrow> (noteId r, currentlyRatedHelpful c) \<in> set labels"
    by (force simp: image_iff)
  finally show ?thesis .
qed

lemma merge_inner_distinct_right:
  "distinct R \<Longrightarrow> map fst (merge_inner kl id L R) = filter (\<lambda>l. kl l \<in> set R) L"
proof (induction L)
  case Nil
  show ?case by (simp add: merge_inner_def)
next
  case (Cons l L)
  have "filter (\<lambda>r. r = kl l) R = (if kl l \<in> set R then [kl l] else [])"
    using Cons.prems filter_unique_key [of id R "kl l"]
    by (auto simp: filter_empty_conv)
  with Cons show ?case by (simp add: merge_inner_def)
qed

lemma crhStats_of_distinct:
  assumes "distinct (map noteId ns)" and "distinct (map fst labels)"
  shows "distinct (map noteId (crhStats_of c ns labels))"
proof -
  have "distinct (map fst (filter (\<lambda>p. snd p = currentlyRatedHelpful c) labels))"
    using assms(2) by (rule distinct_map_filter)
  then have "crhStats_of c ns labels =
      filter (\<lambda>l. noteId l \<in> set (map fst (filter (\<lambda>p. snd p = currentlyRatedHelpful c) labels))) ns"
    unfolding crhStats_of_def Let_def by (rule merge_inner_distinct_right)
  then show ?thesis using assms(1) by (simp add: distinct_map_filter)
qed

lemma recorded_pairs_member:
  "(i, tag) \<in> set (recorded_pairs c gtt pct mn sp ns labels) \<longleftrightarrow>
     tag \<in> set (notHelpfulTagsTSVOrder c)
     \<and> tag \<noteq> notHelpfulHardToUnderstandKey c \<and> tag \<noteq> notHelpfulNoteNotNeededKey c
     \<and> (\<exists>r\<in>set (crhStats_of c ns labels). noteId r = i
           \<and> tag_triggers c (gtt (crhStats_of c ns labels) pct) mn sp tag r)"
  by (auto simp: recorded_pairs_def Let_def tag_loop_eq)

lemma unique_row:
  "distinct (map k xs) \<Longrightarrow> r \<in> set xs \<Longrightarrow> r' \<in> set xs \<Longrightarrow> k r' = k r \<Longrightarrow> r' = r"
  by (meson distinct_map inj_onD)

lemma FilterTagOutliers_result:
  "FilterTagOutliers_score_notes c gtt pct mn sp ns labels = Inr (ids, a) \<Longrightarrow>
     set ids = fst ` set (recorded_pairs c gtt pct mn sp ns labels)
     \<and> (\<exists>supp. a = Some supp \<and> set (map fst (rows supp)) = set ids)"
proof -
  let ?g = "groupby_aggregate_list (recorded_pairs c gtt pct mn sp ns labels)"
  assume "FilterTagOutliers_score_notes c gtt pct mn sp ns labels = Inr (ids, a)"
  then have ids: "ids = drop_duplicates (map fst ?g)"
    and a: "a = Some \<lparr>columns = [activeFilterTagsKey c],
                 rows = map (\<lambda>p. (fst p, [activeFilterTagsKey c \<mapsto> Str (snd p)]))
                          (map (\<lambda>g. (fst g, join '','' (snd g))) ?g)\<rparr>"
    by (simp_all add: FilterTagOutliers_score_notes_def Let_def comp_def)
  have "set ids = set (map fst ?g)" by (simp only: ids set_drop_duplicates)
  then have s1: "set ids = fst ` set (recorded_pairs c gtt pct mn sp ns labels)"
    by (simp only: set_keys_groupby_aggregate_list)
  define supp where "supp = \<lparr>columns = [activeFilterTagsKey c],
                 rows = map (\<lambda>p. (fst p, [activeFilterTagsKey c \<mapsto> Str (snd p)]))
                          (map (\<lambda>g. (fst g, join '','' (snd g))) ?g)\<rparr>"
  have "map fst (rows supp) = map fst ?g" by (simp add: supp_def comp_def)
  then have "set (map fst (rows supp)) = set ids" by (simp only: ids set_drop_duplicates)
  moreover have "a = Some supp" by (simp only: a supp_def)
  ultimately show ?thesis using s1 by blast
qed

lemma tags_of_note:
  assumes d: "distinct (map noteId crh)" and r0: "r0 \<in> set crh"
  shows "map snd (filter (\<lambda>p. fst p = noteId r0)
            (concat (map (\<lambda>tag. map (\<lambda>r. (noteId r, tag)) (filter (P tag) crh)) tags))) =
         filter (\<lambda>tag. P tag r0) tags"
proof (induction tags)
  case Nil
  show ?case by simp
next
  case (Cons tag tags)
  have one: "filter (\<lambda>r. noteId r = noteId r0) crh = [r0]"
    using d r0 by (rule filter_unique_key)
  have "map snd (filter (\<lambda>p. fst p = noteId r0) (map (\<lambda>r. (noteId r, tag)) (filter (P tag) crh)))
        = map (\<lambda>r. tag) (filter (P tag) (filter (\<lambda>r. noteId r = noteId r0) crh))"
    by (simp add: filter_map comp_def conj_commute)
  also have "\<dots> = (if P tag r0 then [tag] else [])" by (simp add: one)
  finally show ?case using Cons by simp
qed

lemma example_filter_result:
  "FilterTagOutliers_score_notes example_constants example_thresholds 95 (Fin 2) (Fin 0.5)
     example_tag_notes example_labels =
   Inr ([7], Some \<lparr>columns = [''activeFilterTags''],
                   rows = [(7, [''activeFilterTags'' \<mapsto> Str ''spam,harassment''])]\<rparr>)"
  by (simp add: filter_defs engine_defs example_defs)

text \<open>
  Claim C3. Let the note ids of \<^verbatim>\<open>noteStats\<close> be unique. For a row whose id is labelled
  \<^verbatim>\<open>c.currentlyRatedHelpful\<close> and a tag of \<^verbatim>\<open>c.notHelpfulTagsTSVOrder\<close> other than the
  two exempted tags, \<^verbatim>\<open>FilterTagOutliers.score_notes\<close> records the pair (note id, tag)
  if and only if the adjusted total of the tag is strictly greater than
  \<^verbatim>\<open>minAdjustedTotal\<close>, the adjusted ratio is strictly greater than the threshold the
  provider returned for the tag's ratio column, and the intercept is strictly less than
  \<^verbatim>\<open>crhSuperThreshold\<close>. A note whose intercept is not strictly below
  \<^verbatim>\<open>crhSuperThreshold\<close> is not among the returned ids, and no pair is ever recorded for
  an exempted tag. The method returns: its ids are exactly the note ids of the recorded
  pairs, as are the ids of its table of new columns, so the note is returned if and only if
  some tag of the list other than the exempted two passes the three comparisons on its row.
\<close>

theorem tag_outlier_pair_recorded_iff:
  assumes d: "distinct (map noteId noteStats)"
    and r: "r \<in> set noteStats"
    and crh: "(noteId r, currentlyRatedHelpful c) \<in> set currentLabels"
    and tag: "tag \<in> set (notHelpfulTagsTSVOrder c)"
    and ne: "tag \<noteq> notHelpfulHardToUnderstandKey c" "tag \<noteq> notHelpfulNoteNotNeededKey c"
  shows "((noteId r, tag) \<in> set (recorded_pairs c get_tag_thresholds tagRatioPercentile
                                   minAdjustedTotal crhSuperThreshold noteStats currentLabels)
          \<longleftrightarrow> fgt (column r (tag @ adjustedSuffix c)) minAdjustedTotal
              \<and> fgt (column r (tag @ adjustedSuffix c @ ratioSuffix c))
                    (get_tag_thresholds (crhStats_of c noteStats currentLabels) tagRatioPercentile
                       (tag @ adjustedSuffix c @ ratioSuffix c))
              \<and> flt (noteIntercept r) crhSuperThreshold)
     \<and> (\<not> flt (noteIntercept r) crhSuperThreshold \<longrightarrow>
          (\<forall>ids a. FilterTagOutliers_score_notes c get_tag_thresholds tagRatioPercentile
                      minAdjustedTotal crhSuperThreshold noteStats currentLabels = Inr (ids, a)
                    \<longrightarrow> noteId r \<notin> set ids))
     \<and> (\<forall>i. (i, notHelpfulHardToUnderstandKey c)
                \<notin> set (recorded_pairs c get_tag_thresholds tagRatioPercentile
                          minAdjustedTotal crhSuperThreshold noteStats currentLabels)
            \<and> (i, notHelpfulNoteNotNeededKey c)
                \<notin> set (recorded_pairs c get_tag_thresholds tagRatioPercentile
                          minAdjustedTotal crhSuperThreshold noteStats currentLabels))
     \<and> (\<exists>ids supp.
           FilterTagOutliers_score_notes c get_tag_thresholds tagRatioPercentile
             minAdjustedTotal crhSuperThreshold noteStats currentLabels = Inr (ids, Some supp)
           \<and> set ids = fst ` set (recorded_pairs c get_tag_thresholds tagRatioPercentile
                                    minAdjustedTotal crhSuperThreshold noteStats currentLabels)
           \<and> set (map fst (rows supp)) = set ids
           \<and> (noteId r \<in> set ids \<longleftrightarrow>
                (\<exists>t\<in>set (notHelpfulTagsTSVOrder c).
                    t \<noteq> notHelpfulHardToUnderstandKey c \<and> t \<noteq> notHelpfulNoteNotNeededKey c
                    \<and> fgt (column r (t @ adjustedSuffix c)) minAdjustedTotal
                    \<and> fgt (column r (t @ adjustedSuffix c @ ratioSuffix c))
                          (get_tag_thresholds (crhStats_of c noteStats currentLabels)
                             tagRatioPercentile (t @ adjustedSuffix c @ ratioSuffix c))
                    \<and> flt (noteIntercept r) crhSuperThreshold)))"
proof -
  let ?crh = "crhStats_of c noteStats currentLabels"
  let ?thr = "get_tag_thresholds ?crh tagRatioPercentile"
  let ?pairs = "recorded_pairs c get_tag_thresholds tagRatioPercentile minAdjustedTotal
                  crhSuperThreshold noteStats currentLabels"
  let ?ok = "\<lambda>t. t \<noteq> notHelpfulHardToUnderstandKey c \<and> t \<noteq> notHelpfulNoteNotNeededKey c
                \<and> fgt (column r (t @ adjustedSuffix c)) minAdjustedTotal
                \<and> fgt (column r (t @ adjustedSuffix c @ ratioSuffix c))
                      (?thr (t @ adjustedSuffix c @ ratioSuffix c))
                \<and> flt (noteIntercept r) crhSuperThreshold"
  have rin: "r \<in> set ?crh" using r crh by (simp add: crhStats_of_member)
  have same: "\<And>r'. r' \<in> set ?crh \<Longrightarrow> noteId r' = noteId r \<Longrightarrow> r' = r"
    using unique_row [OF d r] by (simp add: crhStats_of_member)
  have rec: "(noteId r, t) \<in> set ?pairs \<longleftrightarrow>
          t \<in> set (notHelpfulTagsTSVOrder c) \<and> t \<noteq> notHelpfulHardToUnderstandKey c
          \<and> t \<noteq> notHelpfulNoteNotNeededKey c
          \<and> tag_triggers c ?thr minAdjustedTotal crhSuperThreshold t r" for t
    using rin same by (auto simp: recorded_pairs_member)
  have trig: "tag_triggers c ?thr minAdjustedTotal crhSuperThreshold t r \<longleftrightarrow>
          fgt (column r (t @ adjustedSuffix c)) minAdjustedTotal
          \<and> fgt (column r (t @ adjustedSuffix c @ ratioSuffix c))
                (?thr (t @ adjustedSuffix c @ ratioSuffix c))
          \<and> flt (noteIntercept r) crhSuperThreshold" for t
    by (simp add: tag_triggers_def Let_def)
  have p1: "(noteId r, tag) \<in> set ?pairs
          \<longleftrightarrow> fgt (column r (tag @ adjustedSuffix c)) minAdjustedTotal
              \<and> fgt (column r (tag @ adjustedSuffix c @ ratioSuffix c))
                    (?thr (tag @ adjustedSuffix c @ ratioSuffix c))
              \<and> flt (noteIntercept r) crhSuperThreshold"
    using tag ne by (simp add: rec trig)
  have matched: "noteId r \<in> fst ` set ?pairs \<longleftrightarrow> (\<exists>t\<in>set (notHelpfulTagsTSVOrder c). ?ok t)"
  proof
    assume "noteId r \<in> fst ` set ?pairs"
    then obtain t where "(noteId r, t) \<in> set ?pairs" by force
    then show "\<exists>t\<in>set (notHelpfulTagsTSVOrder c). ?ok t"
      unfolding rec trig by blast
  next
    assume "\<exists>t\<in>set (notHelpfulTagsTSVOrder c). ?ok t"
    then obtain t where "(noteId r, t) \<in> set ?pairs" unfolding rec trig by blast
    then show "noteId r \<in> fst ` set ?pairs" by force
  qed
  have p2: "\<not> flt (noteIntercept r) crhSuperThreshold \<longrightarrow>
          (\<forall>ids a. FilterTagOutliers_score_notes c get_tag_thresholds tagRatioPercentile
                      minAdjustedTotal crhSuperThreshold noteStats currentLabels = Inr (ids, a)
                    \<longrightarrow> noteId r \<notin> set ids)"
  proof (intro impI allI)
    fix ids a
    assume nlt: "\<not> flt (noteIntercept r) crhSuperThreshold"
      and res: "FilterTagOutliers_score_notes c get_tag_thresholds tagRatioPercentile
                  minAdjustedTotal crhSuperThreshold noteStats currentLabels = Inr (ids, a)"
    from FilterTagOutliers_result [OF res] have "set ids = fst ` set ?pairs" by simp
    with matched nlt show "noteId r \<notin> set ids" by blast
  qed
  have p3: "\<forall>i. (i, notHelpfulHardToUnderstandKey c) \<notin> set ?pairs
            \<and> (i, notHelpfulNoteNotNeededKey c) \<notin> set ?pairs"
    by (simp add: recorded_pairs_member)
  obtain ids a where res: "FilterTagOutliers_score_notes c get_tag_thresholds tagRatioPercentile
      minAdjustedTotal crhSuperThreshold noteStats currentLabels = Inr (ids, a)"
    by (simp add: FilterTagOutliers_score_notes_def Let_def)
  from FilterTagOutliers_result [OF res] obtain supp where
    a: "a = Some supp" and s1: "set ids = fst ` set ?pairs"
    and s2: "set (map fst (rows supp)) = set ids" by blast
  from matched s1 have s3: "noteId r \<in> set ids \<longleftrightarrow> (\<exists>t\<in>set (notHelpfulTagsTSVOrder c). ?ok t)"
    by simp
  from res a s1 s2 s3 have p4: "\<exists>ids supp.
           FilterTagOutliers_score_notes c get_tag_thresholds tagRatioPercentile
             minAdjustedTotal crhSuperThreshold noteStats currentLabels = Inr (ids, Some supp)
           \<and> set ids = fst ` set ?pairs
           \<and> set (map fst (rows supp)) = set ids
           \<and> (noteId r \<in> set ids \<longleftrightarrow> (\<exists>t\<in>set (notHelpfulTagsTSVOrder c). ?ok t))"
    by blast
  from p1 p2 p3 p4 show ?thesis by (intro conjI)
qed

theorem tag_outlier_pair_recorded_iff_witness:
  "distinct (map noteId example_tag_notes)
   \<and> example_tag_note 7 0.45 3 \<in> set example_tag_notes
   \<and> example_tag_note 8 0.6 3 \<in> set example_tag_notes
   \<and> example_tag_note 9 0.45 0 \<in> set example_tag_notes
   \<and> (7, currentlyRatedHelpful example_constants) \<in> set example_labels
   \<and> (8, currentlyRatedHelpful example_constants) \<in> set example_labels
   \<and> (9, currentlyRatedHelpful example_constants) \<in> set example_labels
   \<and> ''spam'' \<in> set (notHelpfulTagsTSVOrder example_constants)
   \<and> ''spam'' \<noteq> notHelpfulHardToUnderstandKey example_constants
   \<and> ''spam'' \<noteq> notHelpfulNoteNotNeededKey example_constants
   \<and> (7, ''spam'') \<in> set (recorded_pairs example_constants example_thresholds 95 (Fin 2)
                              (Fin 0.5) example_tag_notes example_labels)
   \<and> (8, ''spam'') \<notin> set (recorded_pairs example_constants example_thresholds 95 (Fin 2)
                              (Fin 0.5) example_tag_notes example_labels)
   \<and> (7, ''hard'') \<notin> set (recorded_pairs example_constants example_thresholds 95 (Fin 2)
                              (Fin 0.5) example_tag_notes example_labels)
   \<and> \<not> flt (noteIntercept (example_tag_note 8 0.6 3)) (Fin 0.5)
   \<and> FilterTagOutliers_score_notes example_constants example_thresholds 95 (Fin 2) (Fin 0.5)
       example_tag_notes example_labels =
     Inr ([7], Some \<lparr>columns = [''activeFilterTags''],
                     rows = [(7, [''activeFilterTags'' \<mapsto> Str ''spam,harassment''])]\<rparr>)
   \<and> 7 \<in> set (fst (projr (FilterTagOutliers_score_notes example_constants example_thresholds
                             95 (Fin 2) (Fin 0.5) example_tag_notes example_labels)))
   \<and> 8 \<notin> set (fst (projr (FilterTagOutliers_score_notes example_constants example_thresholds
                             95 (Fin 2) (Fin 0.5) example_tag_notes example_labels)))
   \<and> 9 \<notin> set (fst (projr (FilterTagOutliers_score_notes example_constants example_thresholds
                             95 (Fin 2) (Fin 0.5) example_tag_notes example_labels)))"
proof -
  let ?A = "example_tag_note 7 0.45 3"
  let ?B = "example_tag_note 8 0.6 3"
  let ?C = "example_tag_note 9 0.45 0"
  let ?pairs = "recorded_pairs example_constants example_thresholds 95 (Fin 2) (Fin 0.5)
                  example_tag_notes example_labels"
  let ?res = "FilterTagOutliers_score_notes example_constants example_thresholds 95 (Fin 2)
                (Fin 0.5) example_tag_notes example_labels"
  have d: "distinct (map noteId example_tag_notes)"
    by (simp add: example_tag_notes_def example_tag_note_def)
  have a: "?A \<in> set example_tag_notes" by (simp add: example_tag_notes_def)
  have b: "?B \<in> set example_tag_notes" by (simp add: example_tag_notes_def)
  have c: "?C \<in> set example_tag_notes" by (simp add: example_tag_notes_def)
  have la: "(noteId ?A, currentlyRatedHelpful example_constants) \<in> set example_labels"
    by (simp add: example_labels_def example_constants_def example_tag_note_def)
  have lb: "(noteId ?B, currentlyRatedHelpful example_constants) \<in> set example_labels"
    by (simp add: example_labels_def example_constants_def example_tag_note_def)
  have lc: "(noteId ?C, currentlyRatedHelpful example_constants) \<in> set example_labels"
    by (simp add: example_labels_def example_constants_def example_tag_note_def)
  have t: "''spam'' \<in> set (notHelpfulTagsTSVOrder example_constants)"
    by (simp add: example_constants_def)
  have n1: "''spam'' \<noteq> notHelpfulHardToUnderstandKey example_constants"
    by (simp add: example_constants_def)
  have n2: "''spam'' \<noteq> notHelpfulNoteNotNeededKey example_constants"
    by (simp add: example_constants_def)
  note ia = tag_outlier_pair_recorded_iff [OF d a la t n1 n2, of example_thresholds 95 "Fin 2" "Fin 0.5"]
  note ib = tag_outlier_pair_recorded_iff [OF d b lb t n1 n2, of example_thresholds 95 "Fin 2" "Fin 0.5"]
  note ic = tag_outlier_pair_recorded_iff [OF d c lc t n1 n2, of example_thresholds 95 "Fin 2" "Fin 0.5"]
  have ida: "noteId ?A = 7" and idb: "noteId ?B = 8" and idc: "noteId ?C = 9"
    by (simp_all add: example_tag_note_def)
  have "(noteId ?A, ''spam'') \<in> set ?pairs"
    by (rule iffD2 [OF conjunct1 [OF ia]])
       (simp add: example_tag_note_def example_thresholds_def example_constants_def fgt_def)
  then have c1: "(7, ''spam'') \<in> set ?pairs" unfolding ida .
  have nb: "\<not> flt (noteIntercept ?B) (Fin 0.5)" by (simp add: example_tag_note_def)
  have "(noteId ?B, ''spam'') \<notin> set ?pairs"
    using iffD1 [OF conjunct1 [OF ib]] nb by blast
  then have c2: "(8, ''spam'') \<notin> set ?pairs" unfolding idb .
  from conjunct1 [OF conjunct2 [OF conjunct2 [OF ia]]]
  have "(7, notHelpfulHardToUnderstandKey example_constants) \<notin> set ?pairs" by blast
  then have c3: "(7, ''hard'') \<notin> set ?pairs" by (simp add: example_constants_def)
  from conjunct2 [OF conjunct2 [OF conjunct2 [OF ia]]]
  obtain idsa suppa where ra: "?res = Inr (idsa, Some suppa)"
    and ma: "noteId ?A \<in> set idsa \<longleftrightarrow>
      (\<exists>t\<in>set (notHelpfulTagsTSVOrder example_constants).
          t \<noteq> notHelpfulHardToUnderstandKey example_constants
          \<and> t \<noteq> notHelpfulNoteNotNeededKey example_constants
          \<and> fgt (column ?A (t @ adjustedSuffix example_constants)) (Fin 2)
          \<and> fgt (column ?A (t @ adjustedSuffix example_constants @ ratioSuffix example_constants))
                (example_thresholds
                   (crhStats_of example_constants example_tag_notes example_labels) 95
                   (t @ adjustedSuffix example_constants @ ratioSuffix example_constants))
          \<and> flt (noteIntercept ?A) (Fin 0.5))"
    by blast
  have "noteId ?A \<in> set idsa"
    by (rule iffD2 [OF ma])
       (simp add: example_tag_note_def example_thresholds_def example_constants_def fgt_def)
  then have "noteId ?A \<in> set (fst (projr ?res))" by (simp only: ra sum.sel fst_conv)
  then have c4: "7 \<in> set (fst (projr ?res))" unfolding ida .
  from conjunct1 [OF conjunct2 [OF ib]] nb
  have nb': "\<forall>ids a. ?res = Inr (ids, a) \<longrightarrow> noteId ?B \<notin> set ids" by blast
  have "noteId ?B \<notin> set (fst (projr ?res))"
    using nb' ra by (simp only: ra sum.sel fst_conv) blast
  then have c5: "8 \<notin> set (fst (projr ?res))" unfolding idb .
  from conjunct2 [OF conjunct2 [OF conjunct2 [OF ic]]]
  obtain idsc suppc where rc: "?res = Inr (idsc, Some suppc)"
    and mc: "noteId ?C \<in> set idsc \<longleftrightarrow>
      (\<exists>t\<in>set (notHelpfulTagsTSVOrder example_constants).
          t \<noteq> notHelpfulHardToUnderstandKey example_constants
          \<and> t \<noteq> notHelpfulNoteNotNeededKey example_constants
          \<and> fgt (column ?C (t @ adjustedSuffix example_constants)) (Fin 2)
          \<and> fgt (column ?C (t @ adjustedSuffix example_constants @ ratioSuffix example_constants))
                (example_thresholds
                   (crhStats_of example_constants example_tag_notes example_labels) 95
                   (t @ adjustedSuffix example_constants @ ratioSuffix example_constants))
          \<and> flt (noteIntercept ?C) (Fin 0.5))"
    by blast
  have "noteId ?C \<notin> set idsc"
    unfolding mc
    by (simp add: example_tag_note_def example_thresholds_def example_constants_def fgt_def)
  then have "noteId ?C \<notin> set (fst (projr ?res))" unfolding rc by simp
  then have c6: "9 \<notin> set (fst (projr ?res))" unfolding idc .
  have la': "(7, currentlyRatedHelpful example_constants) \<in> set example_labels"
    using la unfolding ida .
  have lb': "(8, currentlyRatedHelpful example_constants) \<in> set example_labels"
    using lb unfolding idb .
  have lc': "(9, currentlyRatedHelpful example_constants) \<in> set example_labels"
    using lc unfolding idc .
  show ?thesis
    by (intro conjI; (rule d a b c la' lb' lc' t n1 n2 c1 c2 c3 nb example_filter_result c4 c5 c6))
qed

text \<open>
  Claim C5. Let the note ids of \<^verbatim>\<open>noteStats\<close> and of the current labels be unique. The
  supplemental table has the single column \<^verbatim>\<open>c.activeFilterTagsKey\<close>, and for every
  returned note id it holds exactly one row, whose cell is the comma-separated join of the
  tags that trigger for the note's row, in the order of \<^verbatim>\<open>c.notHelpfulTagsTSVOrder\<close>
  (the exempted tags left out).
\<close>

theorem active_filter_tags_joined_in_tag_order:
  assumes d: "distinct (map noteId noteStats)"
    and dl: "distinct (map fst currentLabels)"
    and res: "FilterTagOutliers_score_notes c get_tag_thresholds tagRatioPercentile
                minAdjustedTotal crhSuperThreshold noteStats currentLabels = Inr (ids, Some supp)"
    and i: "i \<in> set ids"
  shows "columns supp = [activeFilterTagsKey c]
     \<and> (\<exists>r. r \<in> set noteStats \<and> noteId r = i
            \<and> (i, currentlyRatedHelpful c) \<in> set currentLabels
            \<and> filter (\<lambda>p. fst p = i) (rows supp) =
                [(i, [activeFilterTagsKey c \<mapsto>
                       Str (join '',''
                         (filter (\<lambda>tag. tag_triggers c
                                     (get_tag_thresholds (crhStats_of c noteStats currentLabels)
                                        tagRatioPercentile)
                                     minAdjustedTotal crhSuperThreshold tag r)
                            (filter (\<lambda>tag. tag \<noteq> notHelpfulHardToUnderstandKey c
                                          \<and> tag \<noteq> notHelpfulNoteNotNeededKey c)
                               (notHelpfulTagsTSVOrder c))))])])"
proof -
  let ?crh = "crhStats_of c noteStats currentLabels"
  let ?thr = "get_tag_thresholds ?crh tagRatioPercentile"
  let ?P = "\<lambda>tag. tag_triggers c ?thr minAdjustedTotal crhSuperThreshold tag"
  let ?tags = "filter (\<lambda>tag. tag \<noteq> notHelpfulHardToUnderstandKey c
                         \<and> tag \<noteq> notHelpfulNoteNotNeededKey c) (notHelpfulTagsTSVOrder c)"
  define pairs where "pairs = recorded_pairs c get_tag_thresholds tagRatioPercentile
                  minAdjustedTotal crhSuperThreshold noteStats currentLabels"
  define keys where "keys = sort (remdups (map fst pairs))"
  define cellf where "cellf = (\<lambda>k. (k, [activeFilterTagsKey c \<mapsto>
                        Str (join '','' (map snd (filter (\<lambda>p. fst p = k) pairs)))]))"
  have peq: "pairs = concat (map (\<lambda>tag. map (\<lambda>r. (noteId r, tag)) (filter (?P tag) ?crh)) ?tags)"
    by (simp add: pairs_def recorded_pairs_def Let_def tag_loop_eq)
  from res have supp: "supp = \<lparr>columns = [activeFilterTagsKey c], rows = map cellf keys\<rparr>"
    by (simp add: FilterTagOutliers_score_notes_def Let_def comp_def groupby_aggregate_list_def
        pairs_def [symmetric] keys_def cellf_def)
  from res i have "i \<in> fst ` set pairs"
    using FilterTagOutliers_result [OF res] by (simp add: pairs_def)
  then have ik: "i \<in> set keys" by (simp add: keys_def)
  from \<open>i \<in> fst ` set pairs\<close> obtain t where "(i, t) \<in> set pairs" by force
  then obtain r where r: "r \<in> set ?crh" "noteId r = i"
    by (auto simp: pairs_def recorded_pairs_member)
  have dk: "distinct (map id keys)" by (simp add: keys_def)
  have "filter (\<lambda>k. id k = id i) keys = [i]" using dk ik by (rule filter_unique_key)
  then have fk: "filter (\<lambda>k. k = i) keys = [i]" by simp
  have "filter (\<lambda>p. fst p = i) (rows supp) = map cellf (filter (\<lambda>k. k = i) keys)"
    by (simp add: supp filter_map comp_def cellf_def)
  then have rows_i: "filter (\<lambda>p. fst p = i) (rows supp) = [cellf i]" by (simp add: fk)
  have dc: "distinct (map noteId ?crh)" using d dl by (rule crhStats_of_distinct)
  have "map snd (filter (\<lambda>p. fst p = noteId r) pairs) = filter (\<lambda>tag. ?P tag r) ?tags"
    unfolding peq using dc r(1) by (rule tags_of_note)
  then have "cellf i = (i, [activeFilterTagsKey c \<mapsto>
                 Str (join '','' (filter (\<lambda>tag. ?P tag r) ?tags))])"
    by (simp add: cellf_def r(2))
  with rows_i have "filter (\<lambda>p. fst p = i) (rows supp) =
      [(i, [activeFilterTagsKey c \<mapsto> Str (join '','' (filter (\<lambda>tag. ?P tag r) ?tags))])]"
    by simp
  moreover from r have "r \<in> set noteStats" "(i, currentlyRatedHelpful c) \<in> set currentLabels"
    by (auto simp: crhStats_of_member)
  moreover have "columns supp = [activeFilterTagsKey c]" by (simp add: supp)
  ultimately show ?thesis using r(2) by blast
qed

theorem active_filter_tags_joined_in_tag_order_witness:
  "distinct (map noteId example_tag_notes)
   \<and> distinct (map fst example_labels)
   \<and> FilterTagOutliers_score_notes example_constants example_thresholds 95 (Fin 2) (Fin 0.5)
       example_tag_notes example_labels =
     Inr ([7], Some \<lparr>columns = [''activeFilterTags''],
                     rows = [(7, [''activeFilterTags'' \<mapsto> Str ''spam,harassment''])]\<rparr>)
   \<and> 7 \<in> set [7::int]
   \<and> filter (\<lambda>tag. tag_triggers example_constants
                 (example_thresholds
                    (crhStats_of example_constants example_tag_notes example_labels) 95)
                 (Fin 2) (Fin 0.5) tag (example_tag_note 7 0.45 3))
        (filter (\<lambda>tag. tag \<noteq> notHelpfulHardToUnderstandKey example_constants
                      \<and> tag \<noteq> notHelpfulNoteNotNeededKey example_constants)
           (notHelpfulTagsTSVOrder example_constants)) = [''spam'', ''harassment'']
   \<and> filter (\<lambda>p. fst p = 7) [(7::int, [''activeFilterTags'' \<mapsto> Str ''spam,harassment''])] =
       [(7, [activeFilterTagsKey example_constants \<mapsto> Str (join '','' [''spam'', ''harassment''])])]"
proof -
  let ?supp = "\<lparr>columns = [''activeFilterTags''],
                 rows = [(7::int, [''activeFilterTags'' \<mapsto> Str ''spam,harassment''])]\<rparr>"
  let ?trig = "\<lambda>r. filter (\<lambda>tag. tag_triggers example_constants
                 (example_thresholds
                    (crhStats_of example_constants example_tag_notes example_labels) 95)
                 (Fin 2) (Fin 0.5) tag r)
        (filter (\<lambda>tag. tag \<noteq> notHelpfulHardToUnderstandKey example_constants
                      \<and> tag \<noteq> notHelpfulNoteNotNeededKey example_constants)
           (notHelpfulTagsTSVOrder example_constants))"
  have d: "distinct (map noteId example_tag_notes)"
    by (simp add: example_tag_notes_def example_tag_note_def)
  have dl: "distinct (map fst example_labels)" by (simp add: example_labels_def)
  have i: "7 \<in> set [7::int]" by simp
  from active_filter_tags_joined_in_tag_order [OF d dl example_filter_result i]
  obtain r where r: "r \<in> set example_tag_notes" "noteId r = 7"
    and rows: "filter (\<lambda>p. fst p = 7) (rows ?supp) =
       [(7, [activeFilterTagsKey example_constants \<mapsto> Str (join '','' (?trig r))])]"
    by blast
  from r have req: "r = example_tag_note 7 0.45 3"
    by (auto simp: example_tag_notes_def example_tag_note_def)
  have tr: "?trig (example_tag_note 7 0.45 3) = [''spam'', ''harassment'']"
    by (simp add: example_constants_def example_thresholds_def example_tag_note_def
        tag_triggers_def fgt_def)
  from rows have c: "filter (\<lambda>p. fst p = 7)
         [(7::int, [''activeFilterTags'' \<mapsto> Str ''spam,harassment''])] =
       [(7, [activeFilterTagsKey example_constants \<mapsto> Str (join '','' [''spam'', ''harassment''])])]"
    unfolding req tr by simp
  show ?thesis
    by (intro conjI; (rule d dl example_filter_result i tr c))
qed

text \<open>
  Claim C10. \<^verbatim>\<open>FilterTagOutliers.score_notes\<close> always returns, with a supplemental table
  whose set of note ids equals the set of returned ids; so neither the merge of this result
  nor an iteration of the engine's loop on a \<^verbatim>\<open>FilterTagOutliers\<close> rule fails at the
  assertion that compares the two sets.
\<close>

theorem tag_outlier_supplemental_ids_match:
  "\<exists>ids supp.
      FilterTagOutliers_score_notes c get_tag_thresholds tagRatioPercentile minAdjustedTotal
        crhSuperThreshold noteStats currentLabels = Inr (ids, Some supp)
      \<and> set ids = set (map fst (rows supp))
      \<and> merge_rule st (FilterTagOutliers c get_tag_thresholds rid stt deps tagRatioPercentile
                         minAdjustedTotal crhSuperThreshold) (ids, Some supp)
          \<noteq> Inl (AssertionError SupplementalIdsMismatch)
      \<and> apply_rule noteStats st (FilterTagOutliers c get_tag_thresholds rid stt deps
                         tagRatioPercentile minAdjustedTotal crhSuperThreshold)
          \<noteq> Inl (AssertionError SupplementalIdsMismatch)"
proof -
  let ?F = "FilterTagOutliers c get_tag_thresholds rid stt deps tagRatioPercentile
              minAdjustedTotal crhSuperThreshold"
  obtain ids a where res: "FilterTagOutliers_score_notes c get_tag_thresholds tagRatioPercentile
      minAdjustedTotal crhSuperThreshold noteStats currentLabels = Inr (ids, a)"
    by (simp add: FilterTagOutliers_score_notes_def Let_def)
  from FilterTagOutliers_result [OF res] obtain supp where
    a: "a = Some supp" and eq: "set (map fst (rows supp)) = set ids" by blast
  have m: "\<And>st' ids' supp'. set ids' = set (map fst (rows supp')) \<Longrightarrow>
      merge_rule st' ?F (ids', Some supp') \<noteq> Inl (AssertionError SupplementalIdsMismatch)"
    by (simp add: merge_rule_def Let_def)
  have ap: "apply_rule noteStats st ?F \<noteq> Inl (AssertionError SupplementalIdsMismatch)"
  proof (cases "invoke_rule noteStats st ?F")
    case (Inl e)
    then have "e = AssertionError DependenciesUnmet \<or> e = AssertionError RepeatRuleID"
      by (auto simp: invoke_rule_def check_dependencies_def FilterTagOutliers_def
          FilterTagOutliers_score_notes_def Let_def split: if_splits)
    with Inl show ?thesis by (auto simp: apply_rule_def)
  next
    case (Inr res')
    then have sc: "FilterTagOutliers_score_notes c get_tag_thresholds tagRatioPercentile
      minAdjustedTotal crhSuperThreshold noteStats (noteLabels st) = Inr res'"
      by (simp add: invoke_rule_Inr FilterTagOutliers_def)
    obtain ids' a' where r': "res' = (ids', a')" by (cases res')
    from FilterTagOutliers_result [OF sc [unfolded r']] obtain supp' where
      "a' = Some supp'" "set (map fst (rows supp')) = set ids'" by blast
    with m [of ids' supp' st] Inr r' show ?thesis by (simp add: apply_rule_def)
  qed
  from res a eq m [of ids supp st] ap show ?thesis by auto
qed

theorem tag_outlier_supplemental_ids_match_witness:
  "FilterTagOutliers_score_notes example_constants example_thresholds 95 (Fin 2) (Fin 0.5)
       example_tag_notes example_labels =
     Inr ([7], Some \<lparr>columns = [''activeFilterTags''],
                     rows = [(7, [''activeFilterTags'' \<mapsto> Str ''spam,harassment''])]\<rparr>)
   \<and> set [7::int] = set (map fst [(7::int, [''activeFilterTags'' \<mapsto> Str ''spam,harassment''])])"
proof -
  from tag_outlier_supplemental_ids_match [of example_constants example_thresholds 95 "Fin 2" "Fin 0.5" example_tag_notes
      example_labels initial_state TAG_OUTLIER "''NMR''" "{}"]
  obtain ids supp where
    r: "FilterTagOutliers_score_notes example_constants example_thresholds 95 (Fin 2) (Fin 0.5)
       example_tag_notes example_labels = Inr (ids, Some supp)"
    and e: "set ids = set (map fst (rows supp))"
    by blast
  from r [unfolded example_filter_result] have "ids = [7]" "supp = \<lparr>columns = [''activeFilterTags''],
                     rows = [(7, [''activeFilterTags'' \<mapsto> Str ''spam,harassment''])]\<rparr>"
    by simp_all
  with e have "set [7::int] =
      set (map fst [(7::int, [''activeFilterTags'' \<mapsto> Str ''spam,harassment''])])"
    by simp
  with example_filter_result show ?thesis by (intro conjI)
qed

lemmas example_rule_defs =
  example_column_rule_def example_mismatch_rule_def

section \<open>Failures of a run\<close>

lemma run_trace_append:
  "run_trace ns st (pre @ rest) =
     (case scoring_loop ns st pre of
        Inl e \<Rightarrow> run_trace ns st pre
      | Inr st' \<Rightarrow> run_trace ns st pre @ run_trace ns st' rest)"
  by (induction pre arbitrary: st) (auto simp: apply_rule_def split: sum.splits)

lemma run_trace_complete:
  "scoring_loop ns st rules = Inr st' \<Longrightarrow> map fst (run_trace ns st rules) = rules"
  by (induction rules arbitrary: st) (auto simp: apply_rule_def split: sum.splits)

lemma invoke_rule_unmet:
  "\<not> dependencies rule \<subseteq> ruleIDs st \<Longrightarrow>
     invoke_rule ns st rule = Inl (AssertionError DependenciesUnmet)"
  by (auto simp: invoke_rule_def check_dependencies_def)

text \<open>
  Claim C4. If a rule has a prerequisite that is not the identity of a rule before it in the
  list, the run fails: when the rules before it ran through, it fails with the assertion of
  \<^verbatim>\<open>check_dependencies\<close> at that rule, and otherwise with the earlier failure. In either
  case the score operations called during the run are those called for the rules before it:
  neither the rule's own \<^verbatim>\<open>score_notes\<close> nor that of any later rule is invoked.
\<close>

theorem unmet_dependency_fails_before_scoring:
  assumes "\<not> dependencies rule \<subseteq> get_rule_id ` set pre"
  shows "apply_scoring_rules c noteStats (pre @ rule # rest) =
           (case scoring_loop noteStats initial_state pre of
              Inl e \<Rightarrow> Inl e
            | Inr st \<Rightarrow> Inl (AssertionError DependenciesUnmet))
       \<and> run_trace noteStats initial_state (pre @ rule # rest) =
           run_trace noteStats initial_state pre"
proof (cases "scoring_loop noteStats initial_state pre")
  case (Inl e)
  then show ?thesis
    by (simp add: apply_scoring_rules_def scoring_loop_append run_trace_append)
next
  case (Inr st)
  then have "ruleIDs st = ruleIDs initial_state \<union> get_rule_id ` set pre"
    by (rule scoring_loop_ruleIDs)
  then have "ruleIDs st = get_rule_id ` set pre" by (simp add: initial_state_def)
  with assms have inv: "invoke_rule noteStats st rule = Inl (AssertionError DependenciesUnmet)"
    by (simp add: invoke_rule_unmet)
  then have "apply_rule noteStats st rule = Inl (AssertionError DependenciesUnmet)"
    by (simp add: apply_rule_def)
  with Inr inv show ?thesis
    by (simp add: apply_scoring_rules_def scoring_loop_append run_trace_append)
qed

theorem unmet_dependency_fails_before_scoring_witness:
  "\<not> dependencies (RuleFromFunction GENERAL_CRNH ''CRNH'' {GENERAL_CRH} always_true)
       \<subseteq> get_rule_id ` set [DefaultRule INITIAL_NMR ''NMR'' {}]
   \<and> apply_scoring_rules example_constants example_notes
       ([DefaultRule INITIAL_NMR ''NMR'' {}]
        @ RuleFromFunction GENERAL_CRNH ''CRNH'' {GENERAL_CRH} always_true
        # [RuleFromFunction GENERAL_CRH ''CRH'' {INITIAL_NMR} always_true])
       = Inl (AssertionError DependenciesUnmet)
   \<and> run_trace example_notes initial_state
       ([DefaultRule INITIAL_NMR ''NMR'' {}]
        @ RuleFromFunction GENERAL_CRNH ''CRNH'' {GENERAL_CRH} always_true
        # [RuleFromFunction GENERAL_CRH ''CRH'' {INITIAL_NMR} always_true])
       = [(DefaultRule INITIAL_NMR ''NMR'' {}, [3, 1, 2], None)]"
proof -
  have h: "\<not> dependencies (RuleFromFunction GENERAL_CRNH ''CRNH'' {GENERAL_CRH} always_true)
       \<subseteq> get_rule_id ` set [DefaultRule INITIAL_NMR ''NMR'' {}]"
    by (simp add: RuleFromFunction_def DefaultRule_def get_rule_id_def)
  have l: "scoring_loop example_notes initial_state [DefaultRule INITIAL_NMR ''NMR'' {}] =
     Inr \<lparr>noteLabels = [(3, ''NMR''), (1, ''NMR''), (2, ''NMR'')],
          noteRules = [(3, ''InitialNMR (v1.0)''), (1, ''InitialNMR (v1.0)''),
                       (2, ''InitialNMR (v1.0)'')],
          noteColumns = \<lparr>columns = [], rows = []\<rparr>, ruleIDs = {INITIAL_NMR}\<rparr>"
    by (simp add: engine_defs example_defs)
  have t: "run_trace example_notes initial_state [DefaultRule INITIAL_NMR ''NMR'' {}] =
     [(DefaultRule INITIAL_NMR ''NMR'' {}, [3, 1, 2], None)]"
    by (simp add: engine_defs example_defs)
  from unmet_dependency_fails_before_scoring [OF h, of example_constants example_notes
             "[RuleFromFunction GENERAL_CRH ''CRH'' {INITIAL_NMR} always_true]"]
  have "apply_scoring_rules example_constants example_notes
       ([DefaultRule INITIAL_NMR ''NMR'' {}]
        @ RuleFromFunction GENERAL_CRNH ''CRNH'' {GENERAL_CRH} always_true
        # [RuleFromFunction GENERAL_CRH ''CRH'' {INITIAL_NMR} always_true])
       = Inl (AssertionError DependenciesUnmet)"
    and "run_trace example_notes initial_state
       ([DefaultRule INITIAL_NMR ''NMR'' {}]
        @ RuleFromFunction GENERAL_CRNH ''CRNH'' {GENERAL_CRH} always_true
        # [RuleFromFunction GENERAL_CRH ''CRH'' {INITIAL_NMR} always_true])
       = [(DefaultRule INITIAL_NMR ''NMR'' {}, [3, 1, 2], None)]"
    unfolding l t by simp_all
  with h show ?thesis by (intro conjI)
qed

lemma merge_rule_mismatch:
  "set ids \<noteq> set (map fst (rows supp)) \<Longrightarrow>
     merge_rule st rule (ids, Some supp) = Inl (AssertionError SupplementalIdsMismatch)"
  by (simp add: merge_rule_def Let_def)

lemma mismatch_in_trace:
  assumes "(rule, ids, Some supp) \<in> set (run_trace ns st rules)"
    and "set ids \<noteq> set (map fst (rows supp))"
  shows "scoring_loop ns st rules = Inl (AssertionError SupplementalIdsMismatch)
       \<and> (\<exists>tr. run_trace ns st rules = tr @ [(rule, ids, Some supp)])"
  using assms(1)
proof (induction rules arbitrary: st)
  case Nil
  then show ?case by simp
next
  case (Cons x xs)
  from Cons.prems obtain res where inv: "invoke_rule ns st x = Inr res"
    by (cases "invoke_rule ns st x") auto
  show ?case
  proof (cases "merge_rule st x res")
    case (Inl e)
    with inv Cons.prems have eq: "(rule, ids, Some supp) = (x, res)" by simp
    with Inl merge_rule_mismatch [OF assms(2), of st x]
    have "e = AssertionError SupplementalIdsMismatch" by simp
    with Inl inv eq show ?thesis by (simp add: apply_rule_def)
  next
    case (Inr st')
    have "(rule, ids, Some supp) \<noteq> (x, res)"
      using Inr merge_rule_mismatch [OF assms(2), of st x] by auto
    with Cons.prems inv Inr have "(rule, ids, Some supp) \<in> set (run_trace ns st' xs)" by auto
    from Cons.IH [OF this] inv Inr show ?thesis by (auto simp: apply_rule_def)
  qed
qed

text \<open>
  Claim C6. If during a run a rule's \<^verbatim>\<open>score_notes\<close> returns a table of new columns whose
  set of note ids differs from the set of returned ids, the run fails with the assertion that
  compares the two sets. That rule is the last whose score operation is called, and merging
  its result fails from every state, so its labels are never merged.
\<close>

theorem supplemental_id_mismatch_fails:
  assumes "(rule, ids, Some supp) \<in> set (run_trace noteStats initial_state rules)"
    and "set ids \<noteq> set (map fst (rows supp))"
  shows "apply_scoring_rules c noteStats rules = Inl (AssertionError SupplementalIdsMismatch)
       \<and> last (run_trace noteStats initial_state rules) = (rule, ids, Some supp)
       \<and> (\<forall>st. merge_rule st rule (ids, Some supp) = Inl (AssertionError SupplementalIdsMismatch))"
proof -
  from mismatch_in_trace [OF assms]
  have "scoring_loop noteStats initial_state rules = Inl (AssertionError SupplementalIdsMismatch)"
    and "\<exists>tr. run_trace noteStats initial_state rules = tr @ [(rule, ids, Some supp)]"
    by blast+
  then show ?thesis
    using merge_rule_mismatch [OF assms(2)] by (auto simp: apply_scoring_rules_def)
qed

theorem supplemental_id_mismatch_fails_witness:
  "(example_mismatch_rule GENERAL_CRH, [3, 1, 2], Some \<lparr>columns = [''foo''], rows = []\<rparr>)
     \<in> set (run_trace example_notes initial_state
              [DefaultRule INITIAL_NMR ''NMR'' {}, example_mismatch_rule GENERAL_CRH,
               RuleFromFunction GENERAL_CRNH ''CRNH'' {} always_true])
   \<and> set [3, 1, 2::int] \<noteq> set (map fst (rows \<lparr>columns = [''foo''], rows = []\<rparr>))
   \<and> apply_scoring_rules example_constants example_notes
        [DefaultRule INITIAL_NMR ''NMR'' {}, example_mismatch_rule GENERAL_CRH,
         RuleFromFunction GENERAL_CRNH ''CRNH'' {} always_true]
       = Inl (AssertionError SupplementalIdsMismatch)
   \<and> last (run_trace example_notes initial_state
              [DefaultRule INITIAL_NMR ''NMR'' {}, example_mismatch_rule GENERAL_CRH,
               RuleFromFunction GENERAL_CRNH ''CRNH'' {} always_true])
       = (example_mismatch_rule GENERAL_CRH, [3, 1, 2], Some \<lparr>columns = [''foo''], rows = []\<rparr>)"
proof -
  have t: "run_trace example_notes initial_state
              [DefaultRule INITIAL_NMR ''NMR'' {}, example_mismatch_rule GENERAL_CRH,
               RuleFromFunction GENERAL_CRNH ''CRNH'' {} always_true] =
      [(DefaultRule INITIAL_NMR ''NMR'' {}, [3, 1, 2], None),
       (example_mismatch_rule GENERAL_CRH, [3, 1, 2], Some \<lparr>columns = [''foo''], rows = []\<rparr>)]"
    by (simp add: engine_defs example_defs example_rule_defs)
  have h1: "(example_mismatch_rule GENERAL_CRH, [3, 1, 2], Some \<lparr>columns = [''foo''], rows = []\<rparr>)
     \<in> set (run_trace example_notes initial_state
              [DefaultRule INITIAL_NMR ''NMR'' {}, example_mismatch_rule GENERAL_CRH,
               RuleFromFunction GENERAL_CRNH ''CRNH'' {} always_true])"
    unfolding t by simp
  have h2: "set [3, 1, 2::int] \<noteq> set (map fst (rows \<lparr>columns = [''foo''], rows = []\<rparr>))"
    by simp
  from supplemental_id_mismatch_fails [OF h1 h2, of example_constants] h1 h2 show ?thesis by (intro conjI) blast+
qed

lemma merge_rule_columns:
  "merge_rule st rule (ids, a) = Inr st' \<Longrightarrow>
     columns (noteColumns st') =
       columns (noteColumns st) @ (case a of None \<Rightarrow> [] | Some x \<Rightarrow> columns x)"
  by (auto simp: merge_rule_Inr(4) merge_outer_def split: option.splits)

lemma merge_rule_collision:
  "set (columns (noteColumns st)) \<inter> set (columns supp) \<noteq> {} \<Longrightarrow>
     merge_rule st rule (ids, Some supp) =
       Inl (AssertionError (if set ids \<noteq> set (map fst (rows supp))
                            then SupplementalIdsMismatch else ColumnCollision))"
  by (simp add: merge_rule_def Let_def)

lemma collision_with_state:
  assumes "j < length (run_trace ns st rules)"
    and "run_trace ns st rules ! j = (rj, idsj, Some sj)"
    and "set (columns (noteColumns st)) \<inter> set (columns sj) \<noteq> {}"
  shows "scoring_loop ns st rules =
           Inl (AssertionError (if set idsj \<noteq> set (map fst (rows sj))
                                then SupplementalIdsMismatch else ColumnCollision))
       \<and> Suc j = length (run_trace ns st rules)"
  using assms
proof (induction rules arbitrary: st j)
  case Nil
  then show ?case by simp
next
  case (Cons x xs)
  from Cons.prems(1) obtain res where inv: "invoke_rule ns st x = Inr res"
    by (cases "invoke_rule ns st x") auto
  show ?case
  proof (cases j)
    case 0
    with Cons.prems(2) inv have res: "res = (idsj, Some sj)" by simp
    from merge_rule_collision [OF Cons.prems(3), of x idsj] inv res 0
    show ?thesis by (simp add: apply_rule_def)
  next
    case (Suc j')
    with Cons.prems(1) inv obtain st' where mr: "merge_rule st x res = Inr st'"
      by (cases "merge_rule st x res") auto
    obtain ids a where ra: "res = (ids, a)" by (cases res)
    from merge_rule_columns [OF mr [unfolded ra]] Cons.prems(3)
    have c: "set (columns (noteColumns st')) \<inter> set (columns sj) \<noteq> {}" by auto
    from Cons.prems(1,2) inv mr Suc
    have "j' < length (run_trace ns st' xs)" "run_trace ns st' xs ! j' = (rj, idsj, Some sj)"
      by simp_all
    from Cons.IH [OF this c] inv mr Suc show ?thesis by (simp add: apply_rule_def)
  qed
qed

lemma collision_in_trace:
  assumes "i < j" and "j < length (run_trace ns st rules)"
    and "run_trace ns st rules ! i = (ri, idsi, Some si)"
    and "run_trace ns st rules ! j = (rj, idsj, Some sj)"
    and "set (columns si) \<inter> set (columns sj) \<noteq> {}"
  shows "scoring_loop ns st rules =
           Inl (AssertionError (if set idsj \<noteq> set (map fst (rows sj))
                                then SupplementalIdsMismatch else ColumnCollision))
       \<and> Suc j = length (run_trace ns st rules)"
  using assms(1-4)
proof (induction rules arbitrary: st i j)
  case Nil
  then show ?case by simp
next
  case (Cons x xs)
  from Cons.prems(2) obtain res where inv: "invoke_rule ns st x = Inr res"
    by (cases "invoke_rule ns st x") auto
  from Cons.prems(1) obtain j' where j: "j = Suc j'" by (cases j) auto
  with Cons.prems(2) inv obtain st' where mr: "merge_rule st x res = Inr st'"
    by (cases "merge_rule st x res") auto
  from Cons.prems(2,4) inv mr j
  have tj: "j' < length (run_trace ns st' xs)" "run_trace ns st' xs ! j' = (rj, idsj, Some sj)"
    by simp_all
  show ?case
  proof (cases i)
    case 0
    with Cons.prems(3) inv have res: "res = (idsi, Some si)" by simp
    from merge_rule_columns [OF mr [unfolded res]] assms(5)
    have "set (columns (noteColumns st')) \<inter> set (columns sj) \<noteq> {}" by auto
    from collision_with_state [OF tj this] inv mr j show ?thesis by (simp add: apply_rule_def)
  next
    case (Suc i')
    with Cons.prems(1,3) inv mr j
    have "i' < j'" "run_trace ns st' xs ! i' = (ri, idsi, Some si)" by simp_all
    from Cons.IH [OF this(1) tj(1) this(2) tj(2)] inv mr j show ?thesis
      by (simp add: apply_rule_def)
  qed
qed

text \<open>
  Claim C7. If two rules of a run each return a table of new columns and the two tables share
  a column name other than the note id, the run fails at the second of them and returns no
  table: with the assertion on the column names, unless the second rule's table already
  fails the comparison of the id sets that precedes it. The second rule is the last whose
  score operation is called.
\<close>

theorem duplicate_supplemental_column_fails:
  assumes "i < j" and "j < length (run_trace noteStats initial_state rules)"
    and "run_trace noteStats initial_state rules ! i = (ri, idsi, Some si)"
    and "run_trace noteStats initial_state rules ! j = (rj, idsj, Some sj)"
    and "set (columns si) \<inter> set (columns sj) \<noteq> {}"
  shows "apply_scoring_rules c noteStats rules =
           Inl (AssertionError (if set idsj \<noteq> set (map fst (rows sj))
                                then SupplementalIdsMismatch else ColumnCollision))
       \<and> Suc j = length (run_trace noteStats initial_state rules)"
  using collision_in_trace [OF assms] by (simp add: apply_scoring_rules_def)

theorem duplicate_supplemental_column_fails_witness:
  "(1::nat) < 2
   \<and> 2 < length (run_trace example_notes initial_state
        [DefaultRule INITIAL_NMR ''NMR'' {}, example_column_rule GENERAL_CRH ''foo'',
         example_column_rule GENERAL_CRNH ''foo''])
   \<and> set (columns \<lparr>columns = [''foo''],
                   rows = [(3::int, [''foo'' \<mapsto> Str ''x'']), (1, [''foo'' \<mapsto> Str ''x'']),
                           (2, [''foo'' \<mapsto> Str ''x''])]\<rparr>)
       \<inter> set (columns \<lparr>columns = [''foo''],
                   rows = [(3::int, [''foo'' \<mapsto> Str ''x'']), (1, [''foo'' \<mapsto> Str ''x'']),
                           (2, [''foo'' \<mapsto> Str ''x''])]\<rparr>) \<noteq> {}
   \<and> apply_scoring_rules example_constants example_notes
        [DefaultRule INITIAL_NMR ''NMR'' {}, example_column_rule GENERAL_CRH ''foo'',
         example_column_rule GENERAL_CRNH ''foo'']
       = Inl (AssertionError ColumnCollision)"
proof -
  let ?rules = "[DefaultRule INITIAL_NMR ''NMR'' {}, example_column_rule GENERAL_CRH ''foo'',
         example_column_rule GENERAL_CRNH ''foo'']"
  let ?foo = "\<lparr>columns = [''foo''],
                   rows = [(3::int, [''foo'' \<mapsto> Str ''x'']), (1, [''foo'' \<mapsto> Str ''x'']),
                           (2, [''foo'' \<mapsto> Str ''x''])]\<rparr>"
  have t: "run_trace example_notes initial_state ?rules =
      [(DefaultRule INITIAL_NMR ''NMR'' {}, [3, 1, 2], None),
       (example_column_rule GENERAL_CRH ''foo'', [3, 1, 2], Some ?foo),
       (example_column_rule GENERAL_CRNH ''foo'', [3, 1, 2], Some ?foo)]"
    by (simp add: engine_defs example_defs example_rule_defs insert_commute)
  have ij: "(1::nat) < 2" by simp
  have j: "2 < length (run_trace example_notes initial_state ?rules)" unfolding t by simp
  have ei: "run_trace example_notes initial_state ?rules ! 1 =
      (example_column_rule GENERAL_CRH ''foo'', [3, 1, 2], Some ?foo)" unfolding t by simp
  have ej: "run_trace example_notes initial_state ?rules ! 2 =
      (example_column_rule GENERAL_CRNH ''foo'', [3, 1, 2], Some ?foo)" unfolding t by simp
  have cc: "set (columns ?foo) \<inter> set (columns ?foo) \<noteq> {}" by simp
  from duplicate_supplemental_column_fails [OF ij j ei ej cc, of example_constants]
  have "apply_scoring_rules example_constants example_notes ?rules =
      Inl (AssertionError ColumnCollision)"
    by (simp add: insert_commute)
  with ij j cc show ?thesis by (intro conjI)
qed

section \<open>The audit column\<close>

lemma scoring_loop_noteRules:
  "scoring_loop ns st rules = Inr st' \<Longrightarrow>
     noteRules st' =
       noteRules st @ concat (map (\<lambda>e. map (\<lambda>i. (i, get_name (fst e))) (fst (snd e)))
                               (run_trace ns st rules))"
proof (induction rules arbitrary: st)
  case Nil
  then show ?case by simp
next
  case (Cons x xs)
  then obtain st1 where ap: "apply_rule ns st x = Inr st1" and l: "scoring_loop ns st1 xs = Inr st'"
    by (auto split: sum.splits)
  from ap obtain res where inv: "invoke_rule ns st x = Inr res"
    and mr: "merge_rule st x res = Inr st1" by (auto simp: apply_rule_Inr)
  obtain ids a where ra: "res = (ids, a)" by (cases res)
  from merge_rule_Inr(3) [OF mr [unfolded ra]] Cons.IH [OF l] inv mr ra
  show ?case by simp
qed

lemma names_of_note:
  assumes "\<forall>e\<in>set tr. distinct (fst (snd e))"
  shows "map snd (filter (\<lambda>p. fst p = k)
            (concat (map (\<lambda>e. map (\<lambda>i. (i, nm e)) (fst (snd e))) tr))) =
         map nm (filter (\<lambda>e. k \<in> set (fst (snd e))) tr)"
  using assms
proof (induction tr)
  case Nil
  show ?case by simp
next
  case (Cons e tr)
  then have d: "distinct (map id (fst (snd e)))" by simp
  have "map snd (filter (\<lambda>p. fst p = k) (map (\<lambda>i. (i, nm e)) (fst (snd e)))) =
        map (\<lambda>i. nm e) (filter (\<lambda>i. id i = id k) (fst (snd e)))"
    by (simp add: filter_map comp_def)
  also have "\<dots> = (if k \<in> set (fst (snd e)) then [nm e] else [])"
  proof (cases "k \<in> set (fst (snd e))")
    case True
    with filter_unique_key [OF d True] show ?thesis by simp
  next
    case False
    then have "filter (\<lambda>i. id i = id k) (fst (snd e)) = []"
      by (auto simp: filter_empty_conv)
    with False show ?thesis by simp
  qed
  finally show ?case using Cons by simp
qed

text \<open>
  Claim C8. In a completed run every rule's score operation was called, in order. When each
  rule returned its note ids without repetition, the \<^verbatim>\<open>activeRules\<close> entry of every row
  of the result is the comma-separated join of the names of exactly the rules whose returned
  ids contain the row's note id, in the order of application; a rule's name is
  \<^verbatim>\<open>"<ruleName> (v<ruleVersion>)"\<close>.
\<close>

theorem audit_column_lists_matching_rules:
  assumes run: "apply_scoring_rules c noteStats rules = Inr scoredNotes"
    and dist: "\<forall>e\<in>set (run_trace noteStats initial_state rules). distinct (fst (snd e))"
    and row: "row \<in> set scoredNotes"
  shows "map fst (run_trace noteStats initial_state rules) = rules
       \<and> activeRules row =
           join '','' (map (\<lambda>e. get_name (fst e))
                       (filter (\<lambda>e. noteId (stats row) \<in> set (fst (snd e)))
                          (run_trace noteStats initial_state rules)))
       \<and> get_name any_rule =
           ruleName (ruleID any_rule) @ '' (v'' @ ruleVersion (ruleID any_rule) @ '')''"
proof -
  from run obtain st where st: "scoring_loop noteStats initial_state rules = Inr st"
    and fin: "finish c noteStats st = Inr scoredNotes"
    by (auto simp: apply_scoring_rules_def split: sum.splits)
  have "distinct (map fst (noteLabels initial_state))" by (simp add: initial_state_def)
  then have dl: "distinct (map fst (noteLabels st))"
    using st by (rule scoring_loop_labels_distinct)
  from scoring_loop_noteRules [OF st]
  have nr: "noteRules st = concat (map (\<lambda>e. map (\<lambda>i. (i, get_name (fst e))) (fst (snd e)))
                               (run_trace noteStats initial_state rules))"
    by (simp add: initial_state_def)
  from finish_rows(2) [OF fin dl] row
  have "activeRules row =
      join '','' (map snd (filter (\<lambda>p. fst p = noteId (stats row)) (noteRules st)))"
    by blast
  also have "map snd (filter (\<lambda>p. fst p = noteId (stats row)) (noteRules st)) =
      map (\<lambda>e. get_name (fst e))
        (filter (\<lambda>e. noteId (stats row) \<in> set (fst (snd e)))
           (run_trace noteStats initial_state rules))"
    unfolding nr using dist by (rule names_of_note)
  finally show ?thesis using run_trace_complete [OF st] by (simp add: get_name_def)
qed

theorem audit_column_lists_matching_rules_witness:
  "apply_scoring_rules example_constants [example_note 3 0.5, example_note 1 0.1]
     [DefaultRule INITIAL_NMR ''NMR'' {},
      RuleFromFunction GENERAL_CRH ''CRH'' {INITIAL_NMR} (intercept_above 0.4)]
   = Inr [\<lparr>stats = example_note 3 0.5, ratingStatus = ''CRH'',
           activeRules = ''InitialNMR (v1.0),GeneralCRH (v1.0)'', supplemental = Map.empty,
           currentlyRatedHelpfulBool = True, currentlyRatedNotHelpfulBool = False,
           awaitingMoreRatingsBool = False\<rparr>,
          \<lparr>stats = example_note 1 0.1, ratingStatus = ''NMR'',
           activeRules = ''InitialNMR (v1.0)'', supplemental = Map.empty,
           currentlyRatedHelpfulBool = False, currentlyRatedNotHelpfulBool = False,
           awaitingMoreRatingsBool = True\<rparr>]
   \<and> run_trace [example_note 3 0.5, example_note 1 0.1] initial_state
       [DefaultRule INITIAL_NMR ''NMR'' {},
        RuleFromFunction GENERAL_CRH ''CRH'' {INITIAL_NMR} (intercept_above 0.4)]
     = [(DefaultRule INITIAL_NMR ''NMR'' {}, [3, 1], None),
        (RuleFromFunction GENERAL_CRH ''CRH'' {INITIAL_NMR} (intercept_above 0.4), [3], None)]
   \<and> distinct [3, 1::int] \<and> distinct [3::int]
   \<and> activeRules \<lparr>stats = example_note 1 0.1, ratingStatus = ''NMR'',
           activeRules = ''InitialNMR (v1.0)'', supplemental = Map.empty,
           currentlyRatedHelpfulBool = False, currentlyRatedNotHelpfulBool = False,
           awaitingMoreRatingsBool = True\<rparr> =
       join '','' (map (\<lambda>e. get_name (fst e))
          [(DefaultRule INITIAL_NMR ''NMR'' {}, [3, 1::int], None::frame option)])"
proof -
  let ?ns = "[example_note 3 0.5, example_note 1 0.1]"
  let ?rules = "[DefaultRule INITIAL_NMR ''NMR'' {},
      RuleFromFunction GENERAL_CRH ''CRH'' {INITIAL_NMR} (intercept_above 0.4)]"
  let ?r1 = "\<lparr>stats = example_note 3 0.5, ratingStatus = ''CRH'',
           activeRules = ''InitialNMR (v1.0),GeneralCRH (v1.0)'', supplemental = Map.empty,
           currentlyRatedHelpfulBool = True, currentlyRatedNotHelpfulBool = False,
           awaitingMoreRatingsBool = False\<rparr>"
  let ?r2 = "\<lparr>stats = example_note 1 0.1, ratingStatus = ''NMR'',
           activeRules = ''InitialNMR (v1.0)'', supplemental = Map.empty,
           currentlyRatedHelpfulBool = False, currentlyRatedNotHelpfulBool = False,
           awaitingMoreRatingsBool = True\<rparr>"
  have run: "apply_scoring_rules example_constants ?ns ?rules = Inr [?r1, ?r2]"
    by (simp add: engine_defs example_defs insert_commute)
  have t: "run_trace ?ns initial_state ?rules =
      [(DefaultRule INITIAL_NMR ''NMR'' {}, [3, 1], None),
       (RuleFromFunction GENERAL_CRH ''CRH'' {INITIAL_NMR} (intercept_above 0.4), [3], None)]"
    by (simp add: engine_defs example_defs)
  have dist: "\<forall>e\<in>set (run_trace ?ns initial_state ?rules). distinct (fst (snd e))"
    unfolding t by simp
  have row: "?r2 \<in> set [?r1, ?r2]" by simp
  have f: "filter (\<lambda>e. noteId (stats ?r2) \<in> set (fst (snd e)))
       [(DefaultRule INITIAL_NMR ''NMR'' {}, [3, 1], None),
        (RuleFromFunction GENERAL_CRH ''CRH'' {INITIAL_NMR} (intercept_above 0.4), [3], None)] =
       [(DefaultRule INITIAL_NMR ''NMR'' {}, [3, 1], None)]"
    by (simp add: example_note_def)
  from conjunct1 [OF conjunct2 [OF audit_column_lists_matching_rules [OF run dist row]]]
  have c: "activeRules ?r2 =
       join '','' (map (\<lambda>e. get_name (fst e))
          [(DefaultRule INITIAL_NMR ''NMR'' {}, [3, 1::int], None::frame option)])"
    unfolding t f .
  have d1: "distinct [3, 1::int]" and d2: "distinct [3::int]" by simp_all
  show ?thesis by (intro conjI; (rule run t d1 d2 c))
qed

end
